theory Spec2Isabelle
  imports Complex_Main "HOL-Library.Char_ord" "HOL-Library.List_Lexorder" "HOL-Library.AList" "HOL-Library.Multiset"
begin

section \<open>Exceptions\<close>

text \<open>
  Every \<^verbatim>\<open>raise\<close> of \<^verbatim>\<open>_discriminator_classifier.py\<close> and every exception of a
  library call that the modelled paths can reach is a value of \<open>error\<close>.
  \<open>LayerKeyNotFound\<close> and \<open>TargetColMissing\<close> are the two \<^verbatim>\<open>ValueError\<close>s of
  \<^verbatim>\<open>load\<close> (lines 68 and 71), \<open>BadLastLayerAct\<close> the one of \<^verbatim>\<open>MLP.__init__\<close>
  (line 238). \<open>Raised\<close> carries the class name of an exception that a library raises.
\<close>

datatype error =
    LayerKeyNotFound string
  | TargetColMissing string
  | BadLastLayerAct
  | Raised string

section \<open>The multilayer perceptron\<close>

text \<open>
  The modules that \<^verbatim>\<open>MLP.__init__\<close> puts into its \<^verbatim>\<open>torch.nn.Sequential\<close>, with the
  constructor arguments the source passes.
\<close>

datatype layer =
    Linear nat nat
  | BatchNorm1d nat
  | LayerNorm nat
  | ReLU
  | Dropout rat

record MLP =
  network :: "layer list"
  activation :: string
  sizes :: "nat list"
  batch_norm :: bool
  layer_norm :: bool

text \<open>
  The five entries that one iteration \<open>s\<close> of the loop of \<^verbatim>\<open>MLP.__init__\<close> appends
  (lines 223-229); \<open>None\<close> is Python's \<^verbatim>\<open>None\<close>. The loop runs for \<open>s < len(sizes) - 1\<close>,
  so \<^verbatim>\<open>s < len(sizes) - 2\<close> is \<open>s + 2 < length szs\<close>.
\<close>

definition layer_slots :: "nat list \<Rightarrow> rat \<Rightarrow> bool \<Rightarrow> bool \<Rightarrow> nat \<Rightarrow> layer option list" where
  "layer_slots szs p bn lnm s =
     [ Some (Linear (szs ! s) (szs ! (s + 1))),
       if bn \<and> s + 2 < length szs then Some (BatchNorm1d (szs ! (s + 1))) else None,
       if lnm \<and> s + 2 < length szs \<and> \<not> bn then Some (LayerNorm (szs ! (s + 1))) else None,
       Some ReLU,
       if s + 2 < length szs then Some (Dropout p) else None ]"

text \<open>
  Lines 221-231: the slots of all iterations, the \<^verbatim>\<open>None\<close>s filtered out, the last
  remaining module dropped (\<^verbatim>\<open>[:-1]\<close>; on the empty list both Python and \<open>butlast\<close>
  give the empty list).
\<close>

definition mlp_layers :: "nat list \<Rightarrow> rat \<Rightarrow> bool \<Rightarrow> bool \<Rightarrow> layer list" where
  "mlp_layers szs p bn lnm =
     butlast (List.map_filter (\<lambda>l. l) (concat (map (layer_slots szs p bn lnm) [0..<length szs - 1])))"

text \<open>
  \<^verbatim>\<open>MLP.__init__\<close>. \<^verbatim>\<open>torch.nn.Dropout(p)\<close> raises \<^verbatim>\<open>ValueError\<close> for a probability
  outside \<open>[0, 1]\<close>; the loop constructs one exactly when some \<open>s\<close> has
  \<open>s < len(sizes) - 2\<close>, that is when there are at least three sizes. The check of
  \<^verbatim>\<open>last_layer_act\<close> comes after the loop.
\<close>

definition MLP_init :: "nat list \<Rightarrow> rat \<Rightarrow> bool \<Rightarrow> bool \<Rightarrow> string \<Rightarrow> error + MLP" where
  "MLP_init szs p bn lnm last_layer_act =
     (if 3 \<le> length szs \<and> (p < 0 \<or> 1 < p) then Inl (Raised ''ValueError'')
      else if last_layer_act \<noteq> ''linear'' \<and> last_layer_act \<noteq> ''ReLU'' then Inl BadLastLayerAct
      else Inr \<lparr> network = mlp_layers szs p bn lnm, activation = last_layer_act,
                 sizes = szs, batch_norm = bn, layer_norm = lnm \<rparr>)"

subsection \<open>Running the network on one cell\<close>

text \<open>
  The numbers a trained module computes are not part of the source: they are the
  parameter \<open>w\<close>, where \<open>w k\<close> is the function that the learnable module at position \<open>k\<close>
  of the \<^verbatim>\<open>Sequential\<close> computes on one row in evaluation mode (\<^verbatim>\<open>get_embeddings\<close>
  calls \<^verbatim>\<open>self.model.eval()\<close>, so batch normalisation uses its running statistics and
  acts on each row separately, and dropout is the identity). \<^verbatim>\<open>Linear\<close> and the two
  normalisations reject a row whose width is not the one they were built for.
\<close>

definition layer_call :: "(nat \<Rightarrow> 'a list \<Rightarrow> 'a list) \<Rightarrow> nat \<Rightarrow> layer \<Rightarrow> 'a::{zero,linorder} list
    \<Rightarrow> error + 'a list" where
  "layer_call w k l x =
     (case l of
        Linear a b \<Rightarrow> if length x = a then Inr (w k x) else Inl (Raised ''RuntimeError'')
      | BatchNorm1d c \<Rightarrow> if length x = c then Inr (w k x) else Inl (Raised ''RuntimeError'')
      | LayerNorm c \<Rightarrow> if length x = c then Inr (w k x) else Inl (Raised ''RuntimeError'')
      | ReLU \<Rightarrow> Inr (map (max 0) x)
      | Dropout p \<Rightarrow> Inr x)"

text \<open>The modules at positions \<open>k, k + 1, ...\<close> applied in order.\<close>

fun run_layers :: "(nat \<Rightarrow> 'a list \<Rightarrow> 'a list) \<Rightarrow> nat \<Rightarrow> layer list \<Rightarrow> 'a::{zero,linorder} list
    \<Rightarrow> error + 'a list" where
  "run_layers w k [] x = Inr x"
| "run_layers w k (l # ls) x =
     (case layer_call w k l x of Inl e \<Rightarrow> Inl e | Inr y \<Rightarrow> run_layers w (Suc k) ls y)"


text \<open>\<^verbatim>\<open>MLP.embedding\<close> (lines 254-257): every module but the last one.\<close>

definition embedding :: "(nat \<Rightarrow> 'a list \<Rightarrow> 'a list) \<Rightarrow> MLP \<Rightarrow> 'a::{zero,linorder} list \<Rightarrow> error + 'a list" where
  "embedding w m x = run_layers w 0 (butlast (network m)) x"

section \<open>Annotated data\<close>

text \<open>
  A cell of an observation table: a string (a perturbation label or any other categorical
  annotation) or a numeric array (the one-hot rows that \<^verbatim>\<open>load\<close> stores, as
  \<^verbatim>\<open>np.float32\<close> arrays; their entries are 0 and 1, which \<open>rat\<close> represents exactly).
\<close>

datatype obs_value = Str string | Vec "rat list"

text \<open>
  A table is the list of its columns in order, each with its name. The annotated data
  object: the dense matrix \<open>X\<close> (one row per cell), the observation table, one entry of
  \<open>var\<close> per variable, and the named layers.
\<close>

type_synonym obs_table = "(string \<times> obs_value list) list"

record ('a, 'v) AnnData =
  X :: "'a list list"
  obs :: obs_table
  var :: "'v list"
  layers :: "(string \<times> 'a list list) list"

definition n_obs :: "('a, 'v) AnnData \<Rightarrow> nat" where
  "n_obs ad = length (X ad)"

definition n_vars :: "('a, 'v) AnnData \<Rightarrow> nat" where
  "n_vars ad = length (var ad)"

definition columns :: "obs_table \<Rightarrow> string list" where
  "columns t = map fst t"

text \<open>
  The shape invariant that the \<^verbatim>\<open>AnnData\<close> class maintains: every row of \<open>X\<close> and of
  every layer has one entry per variable, every layer and every observation column has
  one row per cell, and column names are unique.
\<close>

definition wf_adata :: "('a, 'v) AnnData \<Rightarrow> bool" where
  "wf_adata ad \<longleftrightarrow>
     list_all (\<lambda>r. length r = n_vars ad) (X ad) \<and>
     list_all (\<lambda>(k, c). length c = n_obs ad) (obs ad) \<and>
     list_all (\<lambda>(k, m). length m = n_obs ad \<and> list_all (\<lambda>r. length r = n_vars ad) m) (layers ad) \<and>
     distinct (columns (obs ad))"

text \<open>
  \<^verbatim>\<open>adata[idx]\<close> for a list of integer positions: the selected rows of the matrix, of
  every observation column and of every layer; a position outside the object raises
  \<^verbatim>\<open>IndexError\<close>.
\<close>

definition adata_rows :: "('a, 'v) AnnData \<Rightarrow> nat list \<Rightarrow> error + ('a, 'v) AnnData" where
  "adata_rows ad idx =
     (if list_all (\<lambda>i. i < n_obs ad) idx
      then Inr (ad\<lparr> X := map (\<lambda>i. X ad ! i) idx,
                     obs := map (\<lambda>(k, c). (k, map (\<lambda>i. c ! i) idx)) (obs ad),
                     layers := map (\<lambda>(k, m). (k, map (\<lambda>i. m ! i) idx)) (layers ad) \<rparr>)
      else Inl (Raised ''IndexError''))"

text \<open>Sequencing of calls that may raise.\<close>

definition on_ok :: "error + 'b \<Rightarrow> ('b \<Rightarrow> error + 'c) \<Rightarrow> error + 'c" where
  "on_ok r f = (case r of Inl e \<Rightarrow> Inl e | Inr v \<Rightarrow> f v)"

section \<open>Label encoding\<close>

text \<open>
  The labels of a column as strings (line 76: "Labels are strings"). A column that holds
  arrays makes \<^verbatim>\<open>Series.unique()\<close> raise \<^verbatim>\<open>TypeError\<close> (arrays are unhashable).
\<close>

fun as_labels :: "obs_value list \<Rightarrow> error + string list" where
  "as_labels [] = Inr []"
| "as_labels (Str s # vs) = on_ok (as_labels vs) (\<lambda>ls. Inr (s # ls))"
| "as_labels (Vec v # vs) = Inl (Raised ''TypeError'')"

text \<open>
  \<^verbatim>\<open>OneHotEncoder().fit_transform(labels).toarray()\<close>: one column per distinct label, the
  columns in sorted order of the labels, and in each row a one in the column of that
  row's label and zeros elsewhere.
\<close>

definition one_hot :: "string list \<Rightarrow> string \<Rightarrow> rat list" where
  "one_hot cats l = map (\<lambda>c. if c = l then 1 else 0) cats"

definition encode_labels :: "string list \<Rightarrow> rat list list" where
  "encode_labels ls = map (one_hot (sort (remdups ls))) ls"

section \<open>Datasets and data loaders\<close>

record 'a PLDataset =
  data :: "'a list list"
  labels :: "obs_value list"
  pert_labels :: "obs_value list"

definition obs_column :: "obs_table \<Rightarrow> string \<Rightarrow> error + obs_value list" where
  "obs_column t k = (case map_of t k of None \<Rightarrow> Inl (Raised ''KeyError'') | Some c \<Rightarrow> Inr c)"

text \<open>
  \<^verbatim>\<open>PLDataset.__init__\<close> (lines 287-293). \<^verbatim>\<open>if layer_key:\<close> is false for \<^verbatim>\<open>None\<close> and
  for the empty string; a key that is not a layer raises \<^verbatim>\<open>KeyError\<close>.
\<close>

definition PLDataset_init :: "('a, 'v) AnnData \<Rightarrow> string \<Rightarrow> string \<Rightarrow> string option
    \<Rightarrow> error + 'a PLDataset" where
  "PLDataset_init ad target_col label_col layer_key =
     on_ok (case layer_key of
              None \<Rightarrow> Inr (X ad)
            | Some k \<Rightarrow> if k = [] then Inr (X ad)
                        else (case map_of (layers ad) k of
                                None \<Rightarrow> Inl (Raised ''KeyError'')
                              | Some m \<Rightarrow> Inr m))
       (\<lambda>d. on_ok (obs_column (obs ad) target_col)
         (\<lambda>lab. on_ok (obs_column (obs ad) label_col)
           (\<lambda>pert. Inr \<lparr> data = d, labels = lab, pert_labels = pert \<rparr>)))"

text \<open>
  \<^verbatim>\<open>PLDataset.__len__\<close> and \<^verbatim>\<open>__getitem__\<close>: item \<open>idx\<close> is the triple of the data row,
  the encoded label and the label at \<open>idx\<close>. The three sequences come from one annotated
  data object and so have one length; \<open>zip\<close> lists the items \<open>0, 1, ...\<close> in order.
\<close>

definition dataset_items :: "'a PLDataset \<Rightarrow> ('a list \<times> obs_value \<times> obs_value) list" where
  "dataset_items ds = zip (data ds) (zip (labels ds) (pert_labels ds))"

text \<open>
  A \<^verbatim>\<open>DataLoader\<close>: its dataset, its batch size, and the weights of its sampler when it
  has one (\<open>None\<close> for the sequential loaders built with \<^verbatim>\<open>shuffle=False\<close>). A batch
  size that is not positive raises \<^verbatim>\<open>ValueError\<close>.
\<close>

record 'a DataLoader =
  dataset :: "'a PLDataset"
  batch_size :: nat
  sampler :: "rat list option"

definition DataLoader_init :: "'a PLDataset \<Rightarrow> int \<Rightarrow> rat list option \<Rightarrow> error + 'a DataLoader" where
  "DataLoader_init ds bs smp =
     (if bs \<le> 0 then Inl (Raised ''ValueError'')
      else Inr \<lparr> dataset = ds, batch_size = nat bs, sampler = smp \<rparr>)"

text \<open>
  Sequential batching with \<^verbatim>\<open>drop_last=False\<close>: consecutive groups of \<open>b\<close> items, the last
  group holding what remains.
\<close>

function chunks :: "nat \<Rightarrow> 'b list \<Rightarrow> 'b list list" where
  "chunks b xs = (if b = 0 \<or> xs = [] then [] else take b xs # chunks b (drop b xs))"
  by pat_completeness auto
termination
  by (relation "measure (\<lambda>(b, xs). length xs)") auto

declare chunks.simps [simp del]

definition loader_batches :: "'a DataLoader \<Rightarrow> ('a list \<times> obs_value \<times> obs_value) list list" where
  "loader_batches dl = chunks (batch_size dl) (dataset_items (dataset dl))"

text \<open>
  Line 105: \<^verbatim>\<open>1 / (1 + torch.sum(torch.tensor(train_dataset.labels), dim=1))\<close>. The
  labels of the training dataset are the rows of the column \<^verbatim>\<open>encoded_perturbations\<close>;
  \<^verbatim>\<open>dim=1\<close> sums each row. An empty sequence gives a one-dimensional tensor, on which
  \<^verbatim>\<open>dim=1\<close> raises \<^verbatim>\<open>IndexError\<close>; a string cannot be put in a tensor.
\<close>

fun as_rows :: "obs_value list \<Rightarrow> error + rat list list" where
  "as_rows [] = Inr []"
| "as_rows (Vec v # vs) = on_ok (as_rows vs) (\<lambda>rs. Inr (v # rs))"
| "as_rows (Str s # vs) = Inl (Raised ''TypeError'')"

definition train_weights_of :: "obs_value list \<Rightarrow> error + rat list" where
  "train_weights_of labs =
     (if labs = [] then Inl (Raised ''IndexError'')
      else on_ok (as_rows labs) (\<lambda>rows. Inr (map (\<lambda>r. 1 / (1 + sum_list r)) rows)))"

section \<open>The discriminator classifier space\<close>

text \<open>
  \<^verbatim>\<open>sklearn.model_selection.train_test_split(X, y, test_size=f, stratify=y)\<close> is a library
  function that shuffles at random: it is a parameter of the model. It takes the
  indices, the labels and the fraction, and returns \<^verbatim>\<open>X_train, X_test, y_train, y_test\<close>
  or raises an exception of the library, given by its class name.
\<close>

type_synonym splitter =
  "nat list \<Rightarrow> obs_value list \<Rightarrow> rat
     \<Rightarrow> string + (nat list \<times> nat list \<times> obs_value list \<times> obs_value list)"

definition raised :: "string + 'b \<Rightarrow> error + 'b" where
  "raised r = (case r of Inl name \<Rightarrow> Inl (Raised name) | Inr v \<Rightarrow> Inr v)"

text \<open>
  What the documentation of \<^verbatim>\<open>train_test_split\<close> promises of a call that returns, and
  what the properties of the split below assume of the parameter: the two parts of the
  indices are together a rearrangement of the indices given, and for a fraction \<open>f\<close> the
  second part holds \<open>\<lceil>f \<sdot> n\<rceil>\<close> of the \<open>n\<close> indices (sklearn computes
  \<^verbatim>\<open>ceil(test_size * n_samples)\<close>; the fraction is a rational here, where the library has
  a float).
\<close>

definition split_contract :: "splitter \<Rightarrow> bool" where
  "split_contract tts \<longleftrightarrow>
     (\<forall>idx y f tr te ytr yte. tts idx y f = Inr (tr, te, ytr, yte)
        \<longrightarrow> mset tr + mset te = mset idx \<and> length te = nat \<lceil>f * of_nat (length idx)\<rceil>)"

text \<open>
  The attributes that \<^verbatim>\<open>load\<close> and \<^verbatim>\<open>train\<close> set on \<^verbatim>\<open>self\<close>. \<open>model\<close> is \<open>None\<close>
  until \<^verbatim>\<open>train\<close> has run.
\<close>

record 'a DiscriminatorClassifierSpace =
  train_dataloader :: "'a DataLoader"
  test_dataloader :: "'a DataLoader"
  valid_dataloader :: "'a DataLoader"
  net :: MLP
  entire_dataset :: "'a DataLoader"
  adata_obs :: obs_table
  model :: "MLP option"

text \<open>
  Lines 84-90 of \<^verbatim>\<open>load\<close>: the indices of all cells are split into a train and a test
  part, and the train part again into a train and a validation part. The result is
  \<^verbatim>\<open>(X_train, X_val, X_test)\<close>.
\<close>

definition split_indices :: "splitter \<Rightarrow> ('a, 'v) AnnData \<Rightarrow> string \<Rightarrow> rat \<Rightarrow> rat
    \<Rightarrow> error + (nat list \<times> nat list \<times> nat list)" where
  "split_indices tts adata target_col test_split_size validation_split_size =
     on_ok (obs_column (obs adata) target_col) (\<lambda>y.
     on_ok (raised (tts [0..<n_obs adata] y test_split_size)) (\<lambda>(X_train0, X_test, y_train0, y_test).
     on_ok (raised (tts X_train0 y_train0 validation_split_size)) (\<lambda>(X_train, X_val, y_train, y_val).
       Inr (X_train, X_val, X_test))))"

text \<open>
  Lines 83-125 of \<^verbatim>\<open>load\<close>, on the annotated data object that already carries the
  column \<^verbatim>\<open>encoded_perturbations\<close>.
\<close>

definition load_rest :: "splitter \<Rightarrow> ('a, 'v) AnnData \<Rightarrow> string \<Rightarrow> string option \<Rightarrow> nat list \<Rightarrow> nat
    \<Rightarrow> rat \<Rightarrow> bool \<Rightarrow> int \<Rightarrow> rat \<Rightarrow> rat \<Rightarrow> error + 'a DiscriminatorClassifierSpace" where
  "load_rest tts adata target_col layer_key hidden_dim n_classes dropout bn bs
       test_split_size validation_split_size =
     on_ok (split_indices tts adata target_col test_split_size validation_split_size)
       (\<lambda>(X_train, X_val, X_test).
     on_ok (adata_rows adata X_train) (\<lambda>a_train.
     on_ok (PLDataset_init a_train ''encoded_perturbations'' target_col layer_key) (\<lambda>train_dataset.
     on_ok (adata_rows adata X_val) (\<lambda>a_val.
     on_ok (PLDataset_init a_val ''encoded_perturbations'' target_col layer_key) (\<lambda>val_dataset.
     on_ok (adata_rows adata X_test) (\<lambda>a_test.
     on_ok (PLDataset_init a_test ''encoded_perturbations'' target_col layer_key) (\<lambda>test_dataset.
     on_ok (train_weights_of (labels train_dataset)) (\<lambda>train_weights.
     on_ok (DataLoader_init train_dataset bs (Some train_weights)) (\<lambda>train_dl.
     on_ok (DataLoader_init test_dataset bs None) (\<lambda>test_dl.
     on_ok (DataLoader_init val_dataset bs None) (\<lambda>valid_dl.
     on_ok (MLP_init ([n_vars adata] @ hidden_dim @ [n_classes]) dropout bn False ''linear'') (\<lambda>mlp.
     on_ok (PLDataset_init adata ''encoded_perturbations'' target_col layer_key) (\<lambda>total_dataset.
     on_ok (DataLoader_init total_dataset (bs * 2) None) (\<lambda>entire.
       Inr \<lparr> train_dataloader = train_dl, test_dataloader = test_dl,
             valid_dataloader = valid_dl, net = mlp, entire_dataset = entire,
             adata_obs = obs adata, model = None \<rparr>))))))))))))))"

text \<open>
  \<^verbatim>\<open>DiscriminatorClassifierSpace.load\<close>. The caller's object is mutated in place
  (line 81), so the function returns it next to its result.
\<close>

definition load :: "splitter \<Rightarrow> ('a, 'v) AnnData \<Rightarrow> string \<Rightarrow> string option \<Rightarrow> nat list option
    \<Rightarrow> rat \<Rightarrow> bool \<Rightarrow> int \<Rightarrow> rat \<Rightarrow> rat
    \<Rightarrow> (error + 'a DiscriminatorClassifierSpace) \<times> ('a, 'v) AnnData" where
  "load tts adata target_col layer_key hidden_dim dropout bn bs
       test_split_size validation_split_size =
     (if layer_key \<noteq> None \<and> the layer_key \<notin> set (columns (obs adata))
      then (Inl (LayerKeyNotFound (the layer_key)), adata)
      else if target_col \<notin> set (columns (obs adata))
      then (Inl (TargetColMissing target_col), adata)
      else
        (case on_ok (obs_column (obs adata) target_col) as_labels of
           Inl e \<Rightarrow> (Inl e, adata)
         | Inr labs \<Rightarrow>
             let hidden = (case hidden_dim of None \<Rightarrow> [512] | Some h \<Rightarrow> h);
                 n_classes = length (remdups labs);
                 encoded_labels = encode_labels labs;
                 adata' = adata\<lparr> obs := AList.update ''encoded_perturbations''
                                          (map Vec encoded_labels) (obs adata) \<rparr>
             in (load_rest tts adata' target_col layer_key hidden n_classes dropout bn bs
                   test_split_size validation_split_size, adata')))"

text \<open>
  \<^verbatim>\<open>train\<close> (lines 143-157). Line 152 wraps the network in a \<^verbatim>\<open>PerturbationClassifier\<close>
  and assigns it to \<^verbatim>\<open>self.model\<close> before anything is fitted, so the attribute is set
  whether or not the fit returns; nothing else of \<^verbatim>\<open>self\<close> that the functions below read
  is assigned. \<^verbatim>\<open>trainer.fit\<close> runs \<^verbatim>\<open>training_step\<close> (lines 358-370) on every batch of
  the training loader when \<^verbatim>\<open>max_epochs\<close> is positive, and \<^verbatim>\<open>trainer.test\<close> then runs
  \<^verbatim>\<open>test_step\<close> (lines 386-398) on every batch of the test loader. Both steps raise on
  a batch of a single sample: in training mode \<^verbatim>\<open>BatchNorm1d\<close> rejects it with
  \<^verbatim>\<open>ValueError\<close>, and in either mode \<^verbatim>\<open>y_hat.squeeze()\<close> (lines 365 and 393) removes the
  batch axis, after which \<^verbatim>\<open>cross_entropy\<close> rejects prediction and target for their
  shapes (the class of that exception depends on the version of the library; it is written
  \<^verbatim>\<open>ValueError\<close> here as well). The weighted sampler draws as many cells as the training
  dataset holds, so the training batches have the sizes of sequential batching. Every
  other way in which the run can end with an exception (in the validation runs, which the
  library schedules, in early stopping, on the device) is the parameter \<open>trainer\<close>: it
  gives the class name of the exception when the run raises for such a reason, and
  \<open>None\<close> when it does not. What fitting does to the weights is the parameter \<open>w\<close> of
  the functions that run the network.
\<close>

definition single_sample_batch :: "'a DataLoader \<Rightarrow> bool" where
  "single_sample_batch dl = list_ex (\<lambda>b. length b = 1) (loader_batches dl)"

definition train :: "('a DiscriminatorClassifierSpace \<Rightarrow> string option) \<Rightarrow> nat
    \<Rightarrow> 'a DiscriminatorClassifierSpace \<Rightarrow> (error + unit) \<times> 'a DiscriminatorClassifierSpace" where
  "train trainer max_epochs self =
     (let self' = self\<lparr> model := Some (net self) \<rparr> in
      if 0 < max_epochs \<and> single_sample_batch (train_dataloader self')
      then (Inl (Raised ''ValueError''), self')
      else (case trainer self' of
              Some exc \<Rightarrow> (Inl (Raised exc), self')
            | None \<Rightarrow>
                if single_sample_batch (test_dataloader self')
                then (Inl (Raised ''ValueError''), self')
                else (Inr (), self')))"

subsection \<open>Embedding extraction\<close>

text \<open>
  A tensor of at most two dimensions, and \<^verbatim>\<open>torch.squeeze\<close> on a batch of rows: every
  dimension of size one is removed. (The loader yields no empty batch.)
\<close>

datatype 'a tensor = T0 'a | T1 "'a list" | T2 "'a list list"

definition squeeze :: "'a list list \<Rightarrow> 'a tensor" where
  "squeeze rows =
     (if rows = [] then T2 rows
      else if length rows = 1
      then (if length (hd rows) = 1 then T0 (hd (hd rows)) else T1 (hd rows))
      else if length (hd rows) = 1 then T1 (map hd rows)
      else T2 rows)"

text \<open>The number of dimensions of a tensor.\<close>

definition tensor_ndim :: "'a tensor \<Rightarrow> nat" where
  "tensor_ndim t = (case t of T0 v \<Rightarrow> 0 | T1 vs \<Rightarrow> 1 | T2 rows \<Rightarrow> 2)"

text \<open>
  \<^verbatim>\<open>PerturbationClassifier.get_embeddings\<close> (lines 408-413) on a collated batch: the
  embedding of every row, and the string labels.
\<close>

fun embed_rows :: "(nat \<Rightarrow> 'a list \<Rightarrow> 'a list) \<Rightarrow> MLP \<Rightarrow> 'a::{zero,linorder} list list
    \<Rightarrow> error + 'a list list" where
  "embed_rows w m [] = Inr []"
| "embed_rows w m (x # xs) =
     on_ok (embedding w m x) (\<lambda>e. on_ok (embed_rows w m xs) (\<lambda>es. Inr (e # es)))"

definition classifier_get_embeddings :: "(nat \<Rightarrow> 'a list \<Rightarrow> 'a list) \<Rightarrow> MLP
    \<Rightarrow> ('a::{zero,linorder} list \<times> obs_value \<times> obs_value) list
    \<Rightarrow> error + ('a list list \<times> obs_value list)" where
  "classifier_get_embeddings w m batch =
     on_ok (embed_rows w m (map fst batch)) (\<lambda>emb. Inr (emb, map (\<lambda>(x, num, str). str) batch))"

text \<open>
  \<^verbatim>\<open>AnnData(X=...)\<close> accepts a two-dimensional array only and raises \<^verbatim>\<open>ValueError\<close>
  otherwise; the variables of the new object are named by their positions. Assigning an
  observation column of the wrong length raises \<^verbatim>\<open>ValueError\<close>.
\<close>

definition AnnData_init :: "'a tensor \<Rightarrow> error + ('a, nat) AnnData" where
  "AnnData_init t =
     (case t of
        T2 rows \<Rightarrow> Inr \<lparr> X = rows, obs = [],
                         var = [0..<(if rows = [] then 0 else length (hd rows))], layers = [] \<rparr>
      | _ \<Rightarrow> Inl (Raised ''ValueError''))"

definition set_obs_column :: "('a, 'v) AnnData \<Rightarrow> string \<Rightarrow> obs_value list \<Rightarrow> error + ('a, 'v) AnnData" where
  "set_obs_column ad k c =
     (if length c = n_obs ad then Inr (ad\<lparr> obs := AList.update k c (obs ad) \<rparr>)
      else Inl (Raised ''ValueError''))"

text \<open>
  \<^verbatim>\<open>anndata.concat([a, b])\<close> with its default inner join: the rows of both, restricted to
  the variables and the observation columns that both have.
\<close>

definition anndata_concat :: "('a, nat) AnnData \<Rightarrow> ('a, nat) AnnData \<Rightarrow> ('a, nat) AnnData" where
  "anndata_concat a b =
     (let wd = min (n_vars a) (n_vars b) in
      \<lparr> X = map (take wd) (X a) @ map (take wd) (X b),
        obs = List.map_filter
                (\<lambda>(k, c). case map_of (obs b) k of None \<Rightarrow> None | Some c' \<Rightarrow> Some (k, c @ c'))
                (obs a),
        var = [0..<wd], layers = [] \<rparr>)"

text \<open>The loop of lines 175-183; \<open>acc\<close> is \<open>None\<close> while \<^verbatim>\<open>pert_adata\<close> is unbound.\<close>

fun batch_loop :: "(nat \<Rightarrow> 'a list \<Rightarrow> 'a list) \<Rightarrow> MLP \<Rightarrow> ('a, nat) AnnData option
    \<Rightarrow> ('a::{zero,linorder} list \<times> obs_value \<times> obs_value) list list
    \<Rightarrow> error + ('a, nat) AnnData option" where
  "batch_loop w m acc [] = Inr acc"
| "batch_loop w m acc (batch # rest) =
     on_ok (classifier_get_embeddings w m batch) (\<lambda>(emb, y).
     on_ok (AnnData_init (squeeze emb)) (\<lambda>batch_adata0.
     on_ok (set_obs_column batch_adata0 ''perturbations'' y) (\<lambda>batch_adata.
       batch_loop w m
         (Some (case acc of None \<Rightarrow> batch_adata
                | Some pert_adata \<Rightarrow> anndata_concat pert_adata batch_adata))
         rest)))"

text \<open>
  \<^verbatim>\<open>DiscriminatorClassifierSpace.get_embeddings\<close>. It reassigns \<^verbatim>\<open>self.adata_obs\<close>
  (line 189), so the updated \<^verbatim>\<open>self\<close> is returned next to the result.
\<close>

definition get_embeddings :: "(nat \<Rightarrow> 'a list \<Rightarrow> 'a list) \<Rightarrow> 'a::{zero,linorder} DiscriminatorClassifierSpace
    \<Rightarrow> (error + ('a, nat) AnnData) \<times> 'a DiscriminatorClassifierSpace" where
  "get_embeddings w self =
     (case model self of
        None \<Rightarrow> (Inl (Raised ''AttributeError''), self)
      | Some m \<Rightarrow>
          (case batch_loop w m None (loader_batches (entire_dataset self)) of
             Inl e \<Rightarrow> (Inl e, self)
           | Inr None \<Rightarrow> (Inl (Raised ''UnboundLocalError''), self)
           | Inr (Some pert_adata) \<Rightarrow>
               let aobs = (if ''perturbations'' \<in> set (columns (adata_obs self))
                           then AList.delete ''perturbations'' (adata_obs self)
                           else adata_obs self);
                   self' = self\<lparr> adata_obs := aobs \<rparr>;
                   joined = obs pert_adata @ aobs
               in if \<not> list_all (\<lambda>(k, c). length c = n_obs pert_adata) aobs
                  then (Inl (Raised ''ValueError''), self')
                  else if ''encoded_perturbations'' \<notin> set (columns joined)
                  then (Inl (Raised ''KeyError''), self')
                  else (Inr (pert_adata\<lparr> obs := AList.delete ''encoded_perturbations'' joined \<rparr>),
                        self')))"

section \<open>A concrete data set\<close>

text \<open>
  Nine cells, two genes, two perturbations, one layer; a splitter that puts the last
  \<open>\<lceil>f \<sdot> n\<rceil>\<close> indices in the second part; and a choice of trained weights on integers.
  They are the inputs on which the properties below are evaluated. With the fractions
  \<open>1/5\<close> and \<open>1/4\<close> the splitter's parts of this data set are stratified: the cells are
  listed train (3 + 2), validation (1 + 1), test (1 + 1).
\<close>

definition demo_split :: splitter where
  "demo_split idx y f =
     (let n_test = nat \<lceil>f * of_nat (length idx)\<rceil>; n_train = length idx - n_test in
      if n_test = 0 \<or> n_train = 0 then Inl ''ValueError''
      else Inr (take n_train idx, drop n_train idx, take n_train y, drop n_train y))"

definition demo_labels :: "string list" where
  "demo_labels = [''ctrl'', ''ctrl'', ''ctrl'', ''KO'', ''KO'', ''ctrl'', ''KO'', ''ctrl'', ''KO'']"

definition demo_adata :: "(int, string) AnnData" where
  "demo_adata =
     \<lparr> X = [[1, 0], [2, 1], [0, 3], [4, 4], [5, 2], [1, 1], [3, 0], [2, 2], [0, 5]],
       obs = [(''gene_target'', map Str demo_labels),
              (''replicate'', map Str [''r1'', ''r2'', ''r1'', ''r2'', ''r1'', ''r2'', ''r1'', ''r2'', ''r1''])],
       var = [''g1'', ''g2''],
       layers = [(''counts'', [[2, 0], [4, 2], [0, 6], [8, 8], [10, 4], [2, 2], [6, 0], [4, 4], [0, 10]])] \<rparr>"

definition demo_w :: "nat \<Rightarrow> int list \<Rightarrow> int list" where
  "demo_w k x =
     (if k = 0 then [sum_list x, hd x - 2, 1 - hd x]
      else if k = 1 then map (\<lambda>v. v - 1) x
      else [sum_list x, 0])"

text \<open>Weights for a network whose only hidden layer is one feature wide.\<close>

definition demo_w1 :: "nat \<Rightarrow> int list \<Rightarrow> int list" where
  "demo_w1 k x = (if k = 0 then [sum_list x] else if k = 1 then map (\<lambda>v. v - 1) x else [sum_list x, 0])"



text \<open>
  Seven cells. With the fractions \<open>1/5\<close> and \<open>1/4\<close> the parts are stratified as well:
  train (2 + 1), validation (1 + 1), test (1 + 1).
\<close>

definition demo_labels7 :: "string list" where
  "demo_labels7 = [''ctrl'', ''ctrl'', ''KO'', ''ctrl'', ''KO'', ''ctrl'', ''KO'']"

definition demo_adata7 :: "(int, string) AnnData" where
  "demo_adata7 =
     \<lparr> X = [[1, 0], [2, 1], [4, 4], [1, 1], [3, 0], [2, 2], [0, 5]],
       obs = [(''gene_target'', map Str demo_labels7)],
       var = [''g1'', ''g2''],
       layers = [] \<rparr>"

section \<open>Auxiliary notions for the proofs\<close>

text \<open>
  The network that \<^verbatim>\<open>MLP.__init__\<close> builds, described block by block: for each hidden
  size a linear module, the normalisation that is switched on, the nonlinearity and the
  dropout. \<open>mlp_layers_hidden\<close> below proves that \<open>mlp_layers\<close> is these blocks followed by
  one last linear module.
\<close>

definition norm_layers :: "bool \<Rightarrow> bool \<Rightarrow> nat \<Rightarrow> layer list" where
  "norm_layers bn lnm h = (if bn then [BatchNorm1d h] else if lnm then [LayerNorm h] else [])"

fun hidden_blocks :: "rat \<Rightarrow> bool \<Rightarrow> bool \<Rightarrow> nat \<Rightarrow> nat list \<Rightarrow> layer list" where
  "hidden_blocks p bn lnm a [] = []"
| "hidden_blocks p bn lnm a (h # hs) =
     Linear a h # norm_layers bn lnm h @ [ReLU, Dropout p] @ hidden_blocks p bn lnm h hs"

text \<open>The modules of \<^verbatim>\<open>MLP.__init__\<close> before the last one is dropped (line 231 without \<^verbatim>\<open>[:-1]\<close>).\<close>

definition full_layers :: "nat list \<Rightarrow> rat \<Rightarrow> bool \<Rightarrow> bool \<Rightarrow> layer list" where
  "full_layers szs p bn lnm =
     List.map_filter (\<lambda>l. l) (concat (map (layer_slots szs p bn lnm) [0..<length szs - 1]))"

text \<open>
  What is assumed of the trained weights \<open>w\<close>: a linear module built for \<open>a\<close> inputs and
  \<open>b\<close> outputs maps a row of width \<open>a\<close> to a row of width \<open>b\<close>, and a normalisation keeps
  the width.
\<close>

definition layer_ok :: "(nat \<Rightarrow> 'a list \<Rightarrow> 'a list) \<Rightarrow> nat \<Rightarrow> layer \<Rightarrow> bool" where
  "layer_ok w k l \<longleftrightarrow>
     (case l of
        Linear a b \<Rightarrow> \<forall>x. length x = a \<longrightarrow> length (w k x) = b
      | BatchNorm1d c \<Rightarrow> \<forall>x. length x = c \<longrightarrow> length (w k x) = c
      | LayerNorm c \<Rightarrow> \<forall>x. length x = c \<longrightarrow> length (w k x) = c
      | ReLU \<Rightarrow> True
      | Dropout p \<Rightarrow> True)"

fun respects_shapes :: "(nat \<Rightarrow> 'a list \<Rightarrow> 'a list) \<Rightarrow> nat \<Rightarrow> layer list \<Rightarrow> bool" where
  "respects_shapes w k [] = True"
| "respects_shapes w k (l # ls) = (layer_ok w k l \<and> respects_shapes w (Suc k) ls)"

text \<open>
  The embedding of a row as a plain value, and the statement that \<^verbatim>\<open>MLP.embedding\<close>
  returns on a row with a result of width \<open>H\<close>.
\<close>

definition emb_of :: "(nat \<Rightarrow> 'a list \<Rightarrow> 'a list) \<Rightarrow> MLP \<Rightarrow> 'a::{zero,linorder} list \<Rightarrow> 'a list" where
  "emb_of w m x = (case embedding w m x of Inr y \<Rightarrow> y | Inl e \<Rightarrow> [])"

text \<open>
  The annotated data object that the loop of \<^verbatim>\<open>get_embeddings\<close> has accumulated once it
  has seen the embedded rows \<open>rows\<close> with the labels \<open>ys\<close>.
\<close>

definition pert_of :: "nat \<Rightarrow> 'a list list \<Rightarrow> obs_value list \<Rightarrow> ('a, nat) AnnData" where
  "pert_of H rows ys = \<lparr> X = rows, obs = [(''perturbations'', ys)], var = [0..<H], layers = [] \<rparr>"

definition emb_ok :: "(nat \<Rightarrow> 'a list \<Rightarrow> 'a list) \<Rightarrow> MLP \<Rightarrow> nat \<Rightarrow> 'a::{zero,linorder} list \<Rightarrow> bool" where
  "emb_ok w m H x \<longleftrightarrow> (\<exists>y. embedding w m x = Inr y \<and> length y = H)"

text \<open>The string label of a dataset item.\<close>

definition str_of :: "('a list \<times> obs_value \<times> obs_value) \<Rightarrow> obs_value" where
  "str_of it = (case it of (x, num, str) \<Rightarrow> str)"

text \<open>
  What \<^verbatim>\<open>get_embeddings\<close> returns when it returns: the embedding of every cell of the
  full dataset in order, the labels as the column \<^verbatim>\<open>perturbations\<close>, and the saved
  observation columns without \<^verbatim>\<open>perturbations\<close> and \<^verbatim>\<open>encoded_perturbations\<close>.
\<close>

definition expected_embeddings :: "(nat \<Rightarrow> 'a list \<Rightarrow> 'a list) \<Rightarrow> 'a::{zero,linorder} DiscriminatorClassifierSpace
    \<Rightarrow> nat \<Rightarrow> ('a, nat) AnnData" where
  "expected_embeddings w self H =
     \<lparr> X = map (emb_of w (net self)) (data (dataset (entire_dataset self))),
       obs = (''perturbations'', pert_labels (dataset (entire_dataset self)))
             # AList.delete ''encoded_perturbations'' (AList.delete ''perturbations'' (adata_obs self)),
       var = [0..<H], layers = [] \<rparr>"

text \<open>
  The hidden sizes that \<^verbatim>\<open>load\<close> uses (lines 73-74), and the width of the input of the
  final linear module: the last hidden size, or the number of variables when there is no
  hidden layer.
\<close>

definition hidden_of :: "nat list option \<Rightarrow> nat list" where
  "hidden_of hid = (case hid of None \<Rightarrow> [512] | Some h \<Rightarrow> h)"

definition embedding_width :: "('a, 'v) AnnData \<Rightarrow> nat list option \<Rightarrow> nat" where
  "embedding_width adata hid = last (n_vars adata # hidden_of hid)"

text \<open>The exceptions that come from a library call rather than from a \<^verbatim>\<open>raise\<close> of the source.\<close>

definition lib_err :: "error \<Rightarrow> bool" where
  "lib_err e \<longleftrightarrow> (\<exists>s. e = Raised s)"

section \<open>Properties\<close>

subsection \<open>Exceptions of \<^verbatim>\<open>load\<close>\<close>

lemma on_ok_Inl_iff: "on_ok r f = Inl e \<longleftrightarrow> r = Inl e \<or> (\<exists>v. r = Inr v \<and> f v = Inl e)"
  by (cases r) (simp_all add: on_ok_def)

lemma on_ok_Inr_iff: "on_ok r f = Inr z \<longleftrightarrow> (\<exists>v. r = Inr v \<and> f v = Inr z)"
  by (cases r) (simp_all add: on_ok_def)

lemma raised_err: "raised r = Inl e \<Longrightarrow> lib_err e"
  by (cases r) (auto simp: raised_def lib_err_def)
lemma obs_column_err: "obs_column t k = Inl e \<Longrightarrow> lib_err e"
  by (auto simp: obs_column_def lib_err_def split: option.splits)
lemma adata_rows_err: "adata_rows ad idx = Inl e \<Longrightarrow> lib_err e"
  by (auto simp: adata_rows_def lib_err_def split: if_splits)
lemma PLDataset_init_err: "PLDataset_init ad t l k = Inl e \<Longrightarrow> lib_err e"
  by (auto simp: PLDataset_init_def on_ok_Inl_iff lib_err_def obs_column_def split: option.splits if_splits)
lemma as_rows_err: "as_rows vs = Inl e \<Longrightarrow> lib_err e"
  by (induction vs rule: as_rows.induct) (auto simp: on_ok_Inl_iff lib_err_def)
lemma train_weights_of_err: "train_weights_of vs = Inl e \<Longrightarrow> lib_err e"
  by (auto simp: train_weights_of_def on_ok_Inl_iff lib_err_def split: if_splits dest: as_rows_err)
lemma DataLoader_init_err: "DataLoader_init ds b s = Inl e \<Longrightarrow> lib_err e"
  by (auto simp: DataLoader_init_def lib_err_def split: if_splits)
lemma MLP_init_linear_err: "MLP_init szs p bn lnm ''linear'' = Inl e \<Longrightarrow> lib_err e"
  by (auto simp: MLP_init_def lib_err_def split: if_splits)
lemma as_labels_err: "as_labels vs = Inl e \<Longrightarrow> lib_err e"
  by (induction vs rule: as_labels.induct) (auto simp: on_ok_Inl_iff lib_err_def)

lemma split_indices_err: "split_indices tts a tc f1 f2 = Inl e \<Longrightarrow> lib_err e"
  by (auto simp: split_indices_def on_ok_Inl_iff split: prod.splits dest: raised_err obs_column_err)

lemma load_rest_err:
  "load_rest tts adata target_col layer_key hidden n_classes dropout bn bs tss vss = Inl e \<Longrightarrow> lib_err e"
  by (auto simp: load_rest_def on_ok_Inl_iff split: prod.splits dest: split_indices_err obs_column_err adata_rows_err PLDataset_init_err train_weights_of_err
      DataLoader_init_err MLP_init_linear_err)

lemma load_rest_no_guard_error:
  "load_rest tts a tc lk h n p bn bs f1 f2 \<noteq> Inl (LayerKeyNotFound k)"
  "load_rest tts a tc lk h n p bn bs f1 f2 \<noteq> Inl (TargetColMissing c)"
  using load_rest_err [of tts a tc lk h n p bn bs f1 f2] by (auto simp: lib_err_def)

lemma labels_no_guard_error:
  "on_ok (obs_column t c) as_labels \<noteq> Inl (LayerKeyNotFound k)"
  "on_ok (obs_column t c) as_labels \<noteq> Inl (TargetColMissing c')"
  by (auto simp: on_ok_Inl_iff lib_err_def dest!: as_labels_err obs_column_err)

text \<open>
  C9. \<^verbatim>\<open>load\<close> raises the \<^verbatim>\<open>ValueError\<close> of line 68 exactly when \<^verbatim>\<open>layer_key\<close> is given
  and is not the name of an observation column; the layers are not consulted, so a key
  that names a layer and no observation column is rejected. It raises a \<^verbatim>\<open>ValueError\<close>
  whenever \<^verbatim>\<open>target_col\<close> is not an observation column. In both cases the caller's
  object is what it was.
\<close>

theorem load_ValueError_checks:
  "((\<exists>k. fst (load tts adata tc lk hid p bn bs f1 f2) = Inl (LayerKeyNotFound k))
      \<longleftrightarrow> (\<exists>k. lk = Some k \<and> k \<notin> set (columns (obs adata))))
   \<and> (\<forall>k. lk = Some k \<and> k \<in> set (map fst (layers adata)) \<and> k \<notin> set (columns (obs adata))
         \<longrightarrow> fst (load tts adata tc lk hid p bn bs f1 f2) = Inl (LayerKeyNotFound k))
   \<and> (tc \<notin> set (columns (obs adata))
         \<longrightarrow> (\<exists>k. fst (load tts adata tc lk hid p bn bs f1 f2) = Inl (LayerKeyNotFound k))
             \<or> fst (load tts adata tc lk hid p bn bs f1 f2) = Inl (TargetColMissing tc))
   \<and> ((\<exists>k. fst (load tts adata tc lk hid p bn bs f1 f2) = Inl (LayerKeyNotFound k))
         \<or> (\<exists>c. fst (load tts adata tc lk hid p bn bs f1 f2) = Inl (TargetColMissing c))
         \<longrightarrow> snd (load tts adata tc lk hid p bn bs f1 f2) = adata)"
proof (cases "lk \<noteq> None \<and> the lk \<notin> set (columns (obs adata))")
  case True
  then show ?thesis by (auto simp: load_def)
next
  case g1: False
  show ?thesis
  proof (cases "tc \<notin> set (columns (obs adata))")
    case True
    with g1 show ?thesis by (auto simp: load_def)
  next
    case g2: False
    with g1 show ?thesis
      by (auto simp: load_def Let_def load_rest_no_guard_error labels_no_guard_error
          split: sum.splits)
  qed
qed

theorem load_ValueError_checks_witness:
  "fst (load demo_split demo_adata ''gene_target'' (Some ''counts'') None 0 True 256 (1/5) (1/4))
     = Inl (LayerKeyNotFound ''counts'')
   \<and> snd (load demo_split demo_adata ''gene_target'' (Some ''counts'') None 0 True 256 (1/5) (1/4))
     = demo_adata
   \<and> (fst (load demo_split demo_adata ''perturbations'' None None 0 True 256 (1/5) (1/4))
     = Inl (TargetColMissing ''perturbations''))"
proof -
  have a: "''counts'' \<in> set (map fst (layers demo_adata))"
       "''counts'' \<notin> set (columns (obs demo_adata))"
       "''perturbations'' \<notin> set (columns (obs demo_adata))"
    by (simp_all add: demo_adata_def columns_def)
  show ?thesis
    using a
      load_ValueError_checks [of demo_split demo_adata "''gene_target''" "Some ''counts''" None 0 True 256 "1/5" "1/4"]
      load_ValueError_checks [of demo_split demo_adata "''perturbations''" None None 0 True 256 "1/5" "1/4"]
    by auto
qed

subsection \<open>Unfolding a successful \<^verbatim>\<open>load\<close>\<close>

lemma as_labels_Inr_iff: "as_labels vs = Inr ls \<longleftrightarrow> vs = map Str ls"
  by (induction vs arbitrary: ls rule: as_labels.induct) (auto simp: on_ok_Inr_iff)

lemma raised_Inr_iff: "raised r = Inr v \<longleftrightarrow> r = Inr v"
  by (cases r) (simp_all add: raised_def)

lemma DataLoader_init_Inr_iff:
  "DataLoader_init ds b s = Inr dl \<longleftrightarrow> 0 < b \<and> dl = \<lparr> dataset = ds, batch_size = nat b, sampler = s \<rparr>"
  by (auto simp: DataLoader_init_def)

lemma load_rest_InrD:
  assumes "load_rest tts a tc lk h n p bn bs f1 f2 = Inr self"
  obtains Xtr Xval Xte atr aval ate dtr dval dte wts mlp dtot
  where "split_indices tts a tc f1 f2 = Inr (Xtr, Xval, Xte)"
    and "adata_rows a Xtr = Inr atr"
    and "PLDataset_init atr ''encoded_perturbations'' tc lk = Inr dtr"
    and "adata_rows a Xval = Inr aval"
    and "PLDataset_init aval ''encoded_perturbations'' tc lk = Inr dval"
    and "adata_rows a Xte = Inr ate"
    and "PLDataset_init ate ''encoded_perturbations'' tc lk = Inr dte"
    and "train_weights_of (labels dtr) = Inr wts"
    and "0 < bs"
    and "MLP_init ([n_vars a] @ h @ [n]) p bn False ''linear'' = Inr mlp"
    and "PLDataset_init a ''encoded_perturbations'' tc lk = Inr dtot"
    and "self = \<lparr> train_dataloader = \<lparr> dataset = dtr, batch_size = nat bs, sampler = Some wts \<rparr>,
                   test_dataloader = \<lparr> dataset = dte, batch_size = nat bs, sampler = None \<rparr>,
                   valid_dataloader = \<lparr> dataset = dval, batch_size = nat bs, sampler = None \<rparr>,
                   net = mlp,
                   entire_dataset = \<lparr> dataset = dtot, batch_size = nat (bs * 2), sampler = None \<rparr>,
                   adata_obs = obs a, model = None \<rparr>"
  using assms unfolding load_rest_def
  by (auto simp: on_ok_Inr_iff DataLoader_init_Inr_iff)

lemma obs_column_Inr_iff: "obs_column t k = Inr c \<longleftrightarrow> map_of t k = Some c"
  by (auto simp: obs_column_def split: option.splits)

lemma load_InrD:
  assumes "load tts adata tc lk hid p bn bs f1 f2 = (Inr self, adata')"
  obtains labs where "lk = None \<or> the lk \<in> set (columns (obs adata))"
    and "map_of (obs adata) tc = Some (map Str labs)"
    and "adata' = adata\<lparr> obs := AList.update ''encoded_perturbations''
                                   (map Vec (encode_labels labs)) (obs adata) \<rparr>"
    and "load_rest tts adata' tc lk (case hid of None \<Rightarrow> [512] | Some h \<Rightarrow> h)
           (length (remdups labs)) p bn bs f1 f2 = Inr self"
  using assms
  by (auto simp: load_def Let_def on_ok_Inr_iff as_labels_Inr_iff obs_column_Inr_iff
      split: if_splits sum.splits)

subsection \<open>The structure of the network\<close>

lemma layer_slots_Suc:
  "layer_slots (a # szs) p bn lnm (Suc s) = layer_slots szs p bn lnm s"
  by (simp add: layer_slots_def)

lemma map_filter_append: "List.map_filter f (xs @ ys) = List.map_filter f xs @ List.map_filter f ys"
  by (simp add: List.map_filter_def)

lemma full_layers_Cons:
  "full_layers (a # b # rest) p bn lnm =
     List.map_filter (\<lambda>l. l) (layer_slots (a # b # rest) p bn lnm 0) @ full_layers (b # rest) p bn lnm"
proof -
  have "[0..<length (a # b # rest) - 1] = 0 # map Suc [0..<length (b # rest) - 1]"
    by (simp add: upt_conv_Cons map_Suc_upt del: upt_Suc)
  then show ?thesis
    by (simp add: full_layers_def map_filter_append layer_slots_Suc[abs_def] comp_def del: upt_Suc)
qed

lemma full_layers_hidden:
  "full_layers (a # hs @ [k]) p bn lnm =
     hidden_blocks p bn lnm a hs @ [Linear (last (a # hs)) k, ReLU]"
proof (induction hs arbitrary: a)
  case Nil
  show ?case by (simp add: full_layers_def layer_slots_def List.map_filter_def)
next
  case (Cons h hs)
  have "List.map_filter (\<lambda>l. l) (layer_slots (a # h # hs @ [k]) p bn lnm 0)
          = Linear a h # norm_layers bn lnm h @ [ReLU, Dropout p]"
    by (simp add: layer_slots_def List.map_filter_def norm_layers_def)
  with Cons show ?case by (simp add: full_layers_Cons)
qed

lemma mlp_layers_hidden:
  "mlp_layers (a # hs @ [k]) p bn lnm = hidden_blocks p bn lnm a hs @ [Linear (last (a # hs)) k]"
proof -
  have "mlp_layers (a # hs @ [k]) p bn lnm = butlast (full_layers (a # hs @ [k]) p bn lnm)"
    by (simp add: mlp_layers_def full_layers_def)
  also have "\<dots> = hidden_blocks p bn lnm a hs @ [Linear (last (a # hs)) k]"
    by (simp add: full_layers_hidden butlast_append)
  finally show ?thesis .
qed

lemma demo_load_ok:
  "\<not> isl (fst (load demo_split demo_adata ''gene_target'' None (Some [3]) 0 True 3 (1/5) (1/4)))"
  by code_simp

lemma map_Str_inject: "map Str xs = map Str ys \<Longrightarrow> xs = ys"
  by (simp add: inj_map_eq_map inj_on_def)

lemma hd_hidden_blocks:
  "hd (hidden_blocks p bn lnm a hs @ [Linear (last (a # hs)) k]) = Linear a (hd (hs @ [k]))"
  by (cases hs) simp_all

text \<open>
  C5. When \<^verbatim>\<open>load\<close> succeeds, the target column holds one string label per cell, the
  first module of the network is a linear module whose input width is the number of
  variables, and the last module is a linear module whose output width is the number of
  distinct labels of the target column.
\<close>

theorem load_network_dimensions:
  assumes "load tts adata tc lk hid p bn bs f1 f2 = (Inr self, adata')"
  shows "\<exists>labs. map_of (obs adata) tc = Some (map Str labs)
           \<and> (wf_adata adata \<longrightarrow> length labs = n_obs adata)
           \<and> sizes (net self) = n_vars adata # (case hid of None \<Rightarrow> [512] | Some h \<Rightarrow> h) @ [card (set labs)]
           \<and> network (net self) \<noteq> []
           \<and> hd (network (net self))
               = Linear (n_vars adata) (hd ((case hid of None \<Rightarrow> [512] | Some h \<Rightarrow> h) @ [card (set labs)]))
           \<and> last (network (net self))
               = Linear (last (n_vars adata # (case hid of None \<Rightarrow> [512] | Some h \<Rightarrow> h))) (card (set labs))"
proof -
  define hidden where "hidden = (case hid of None \<Rightarrow> [512] | Some h \<Rightarrow> h)"
  from assms obtain labs where col: "map_of (obs adata) tc = Some (map Str labs)"
    and ad: "adata' = adata\<lparr> obs := AList.update ''encoded_perturbations''
                                   (map Vec (encode_labels labs)) (obs adata) \<rparr>"
    and rest: "load_rest tts adata' tc lk hidden (length (remdups labs)) p bn bs f1 f2 = Inr self"
    unfolding hidden_def by (rule load_InrD)
  from rest obtain mlp where
    mlp: "MLP_init ([n_vars adata'] @ hidden @ [length (remdups labs)]) p bn False ''linear'' = Inr mlp"
    and self: "net self = mlp"
    by (rule load_rest_InrD) simp
  have nv: "n_vars adata' = n_vars adata" by (simp add: ad n_vars_def)
  have k: "length (remdups labs) = card (set labs)" by (simp add: length_remdups_card_conv)
  from mlp have szs: "sizes mlp = n_vars adata # hidden @ [card (set labs)]"
    and nw: "network mlp = hidden_blocks p bn False (n_vars adata) hidden
                             @ [Linear (last (n_vars adata # hidden)) (card (set labs))]"
    using mlp_layers_hidden [of "n_vars adata" hidden "card (set labs)" p bn False]
    by (auto simp: MLP_init_def nv k split: if_splits)
  have len: "wf_adata adata \<longrightarrow> length labs = n_obs adata"
  proof
    assume "wf_adata adata"
    moreover from col have "(tc, map Str labs) \<in> set (obs adata)" by (rule map_of_SomeD)
    ultimately show "length labs = n_obs adata" by (auto simp: wf_adata_def list_all_iff)
  qed
  show ?thesis
    using col len szs nw hd_hidden_blocks [of p bn False "n_vars adata" hidden "card (set labs)"]
    unfolding self hidden_def [symmetric]
    by (intro exI [of _ labs]) simp
qed

theorem load_network_dimensions_witness:
  "\<exists>self adata'. load demo_split demo_adata ''gene_target'' None (Some [3]) 0 True 3 (1/5) (1/4) = (Inr self, adata')
     \<and> wf_adata demo_adata \<and> n_obs demo_adata = 9
     \<and> hd (network (net self)) = Linear 2 3 \<and> last (network (net self)) = Linear 3 2"
proof -
  obtain self adata' where
    ld: "load demo_split demo_adata ''gene_target'' None (Some [3]) 0 True 3 (1/5) (1/4) = (Inr self, adata')"
    using demo_load_ok by (metis sum.collapse(2) prod.collapse)
  have wf: "wf_adata demo_adata"
    by (simp add: wf_adata_def demo_adata_def n_vars_def n_obs_def columns_def demo_labels_def)
  have col: "map_of (obs demo_adata) ''gene_target'' = Some (map Str demo_labels)"
    by (simp add: demo_adata_def)
  have c: "card (set demo_labels) = 2" by code_simp
  have nv: "n_vars demo_adata = 2" by (simp add: n_vars_def demo_adata_def)
  have no: "n_obs demo_adata = 9" by (simp add: n_obs_def demo_adata_def)
  from load_network_dimensions [OF ld] obtain labs where
    l: "map_of (obs demo_adata) ''gene_target'' = Some (map Str labs)"
    and h: "hd (network (net self)) = Linear (n_vars demo_adata) (hd ([3] @ [card (set labs)]))"
    and t: "last (network (net self)) = Linear (last (n_vars demo_adata # [3])) (card (set labs))"
    by auto
  from l col have "labs = demo_labels" by (simp add: map_Str_inject)
  with h t c nv have "hd (network (net self)) = Linear 2 3" "last (network (net self)) = Linear 3 2"
    by simp_all
  with ld wf no show ?thesis by blast
qed

subsection \<open>Running the hidden blocks\<close>

lemma respects_shapes_append:
  "respects_shapes w k (ls @ ms) \<longleftrightarrow> respects_shapes w k ls \<and> respects_shapes w (k + length ls) ms"
  by (induction ls arbitrary: k) auto

lemma run_layers_append:
  "run_layers w k (ls @ ms) x = on_ok (run_layers w k ls x) (run_layers w (k + length ls) ms)"
  by (induction ls arbitrary: k x) (auto simp: on_ok_def split: sum.splits)

lemma run_norm_layers:
  assumes "respects_shapes w k (norm_layers bn lnm h)" and "length x = h"
  shows "\<exists>y. run_layers w k (norm_layers bn lnm h) x = Inr y \<and> length y = h"
  using assms by (cases bn; cases lnm) (auto simp: norm_layers_def layer_ok_def layer_call_def)

lemma run_hidden_blocks:
  assumes "respects_shapes w k (hidden_blocks p bn lnm a hs)" and "length x = a"
  shows "\<exists>y. run_layers w k (hidden_blocks p bn lnm a hs) x = Inr y \<and> length y = last (a # hs)"
  using assms
proof (induction hs arbitrary: a k x)
  case Nil
  then show ?case by simp
next
  case (Cons h hs)
  let ?nl = "norm_layers bn lnm h"
  from Cons.prems have lin: "layer_ok w k (Linear a h)"
    and nrm: "respects_shapes w (Suc k) ?nl"
    and rest: "respects_shapes w (Suc k + length ?nl + 2) (hidden_blocks p bn lnm h hs)"
    by (simp_all add: respects_shapes_append)
  from lin Cons.prems(2) have l1: "length (w k x) = h" by (simp add: layer_ok_def)
  from run_norm_layers [OF nrm l1] obtain y1 where
    y1: "run_layers w (Suc k) ?nl (w k x) = Inr y1" "length y1 = h" by blast
  from Cons.IH [OF rest, of "map (max 0) y1"] y1(2) obtain y2 where
    y2: "run_layers w (Suc k + length ?nl + 2) (hidden_blocks p bn lnm h hs) (map (max 0) y1) = Inr y2"
        "length y2 = last (h # hs)" by auto
  show ?case
    using Cons.prems(2) y1 y2
    by (simp add: layer_call_def run_layers_append on_ok_def)
qed

subsection \<open>Batches\<close>

lemma chunks_Nil [simp]: "chunks b [] = []"
  by (simp add: chunks.simps)

lemma chunks_zero [simp]: "chunks 0 xs = []"
  by (simp add: chunks.simps)

lemma chunks_step: "0 < b \<Longrightarrow> xs \<noteq> [] \<Longrightarrow> chunks b xs = take b xs # chunks b (drop b xs)"
  by (subst chunks.simps) simp

lemma concat_chunks: "0 < b \<Longrightarrow> concat (chunks b xs) = xs"
proof (induction b xs rule: chunks.induct)
  case (1 b xs)
  then show ?case by (cases "xs = []") (simp_all add: chunks_step)
qed

lemma chunks_lengths:
  "0 < b \<Longrightarrow> map length (chunks b xs)
     = replicate (length xs div b) b @ (if length xs mod b = 0 then [] else [length xs mod b])"
proof (induction b xs rule: chunks.induct)
  case (1 b xs)
  show ?case
  proof (cases "xs = []")
    case True
    then show ?thesis by simp
  next
    case False
    note ne = this
    show ?thesis
    proof (cases "length xs < b")
      case True
      with ne 1 show ?thesis by (simp add: chunks_step)
    next
      case False
      then have ge: "b \<le> length xs" by simp
      have d: "length xs div b = Suc ((length xs - b) div b)"
        using ge 1(2) by (simp add: le_div_geq)
      have m: "length xs mod b = (length xs - b) mod b"
        using ge by (simp add: le_mod_geq)
      from 1 ne ge show ?thesis
        by (simp add: chunks_step d m min_absorb2)
    qed
  qed
qed

lemma chunks_all_ge2:
  assumes "2 \<le> b"
  shows "(\<forall>c\<in>set (chunks b xs). 2 \<le> length c) \<longleftrightarrow> length xs mod b \<noteq> 1"
proof -
  have "(\<forall>c\<in>set (chunks b xs). 2 \<le> length c) \<longleftrightarrow> (\<forall>n\<in>set (map length (chunks b xs)). 2 \<le> n)"
    by simp
  also have "\<dots> \<longleftrightarrow> length xs mod b \<noteq> 1"
    using assms by (subst chunks_lengths) (auto split: if_splits)
  finally show ?thesis .
qed

lemma chunks_nonempty: "c \<in> set (chunks b xs) \<Longrightarrow> c \<noteq> []"
proof (induction b xs rule: chunks.induct)
  case (1 b xs)
  then show ?case
    by (cases "b = 0 \<or> xs = []") (auto simp: chunks_step)
qed

lemma chunks_last_single:
  assumes "2 \<le> b" and "length xs mod b = 1"
  shows "chunks b xs \<noteq> [] \<and> length (last (chunks b xs)) = 1"
proof -
  have "map length (chunks b xs) = replicate (length xs div b) b @ [1]"
    using assms by (subst chunks_lengths) auto
  then have "chunks b xs \<noteq> []" and "last (map length (chunks b xs)) = 1" by auto
  then show ?thesis by (simp add: last_map)
qed

subsection \<open>The loop over the batches\<close>

lemma emb_ok_emb_of: "emb_ok w m H x \<Longrightarrow> embedding w m x = Inr (emb_of w m x) \<and> length (emb_of w m x) = H"
  by (auto simp: emb_ok_def emb_of_def)

lemma embed_rows_ok:
  "\<forall>x\<in>set xs. emb_ok w m H x \<Longrightarrow> embed_rows w m xs = Inr (map (emb_of w m) xs)"
  by (induction xs) (auto simp: on_ok_def dest: emb_ok_emb_of)

lemma classifier_get_embeddings_ok:
  assumes "\<forall>it\<in>set b. emb_ok w m H (fst it)"
  shows "classifier_get_embeddings w m b = Inr (map (emb_of w m) (map fst b), map str_of b)"
proof -
  have "embed_rows w m (map fst b) = Inr (map (emb_of w m) (map fst b))"
    using assms by (intro embed_rows_ok [where H = H]) auto
  moreover have "map (\<lambda>(x, num, str). str) b = map str_of b"
    by (simp add: str_of_def)
  ultimately show ?thesis by (simp add: classifier_get_embeddings_def on_ok_def)
qed

lemma squeeze_T2:
  assumes "2 \<le> length E" and "length (hd E) \<noteq> 1"
  shows "squeeze E = T2 E"
  using assms by (auto simp: squeeze_def)

lemma squeeze_not_T2:
  assumes "E \<noteq> []" and "length E = 1 \<or> length (hd E) = 1"
  shows "\<forall>rows. squeeze E \<noteq> T2 rows"
  using assms by (auto simp: squeeze_def)

lemma AnnData_init_not_T2:
  "\<forall>rows. t \<noteq> T2 rows \<Longrightarrow> AnnData_init t = Inl (Raised ''ValueError'')"
  by (cases t) (auto simp: AnnData_init_def)

lemma batch_step_ok:
  assumes "2 \<le> length E" and "\<forall>r\<in>set E. length r = H" and "H \<noteq> 1" and "length Y = length E"
  shows "on_ok (AnnData_init (squeeze E)) (\<lambda>a. set_obs_column a ''perturbations'' Y) = Inr (pert_of H E Y)"
proof -
  from assms(1) have ne: "E \<noteq> []" by auto
  then have "hd E \<in> set E" by simp
  with assms(2) have h: "length (hd E) = H" by blast
  with assms have "squeeze E = T2 E" by (intro squeeze_T2) auto
  with ne h assms(4) show ?thesis
    by (simp add: AnnData_init_def on_ok_def set_obs_column_def n_obs_def pert_of_def)
qed

lemma batch_step_fail:
  assumes "E \<noteq> []" and "\<forall>r\<in>set E. length r = H" and "length E = 1 \<or> H = 1"
  shows "AnnData_init (squeeze E) = Inl (Raised ''ValueError'')"
proof -
  from assms(1) have "hd E \<in> set E" by simp
  with assms(2) have "length (hd E) = H" by blast
  with assms have "\<forall>rows. squeeze E \<noteq> T2 rows" by (intro squeeze_not_T2) auto
  then show ?thesis by (simp add: AnnData_init_not_T2)
qed

lemma anndata_concat_pert_of:
  assumes "\<forall>r\<in>set R. length r = H" and "\<forall>r\<in>set E. length r = H"
  shows "anndata_concat (pert_of H R Ys) (pert_of H E Y) = pert_of H (R @ E) (Ys @ Y)"
proof -
  have "map (take H) R = R" "map (take H) E = E"
    using assms by (simp_all add: map_idI)
  then show ?thesis
    by (simp add: anndata_concat_def pert_of_def n_vars_def Let_def List.map_filter_def)
qed

lemma batch_loop_Some:
  assumes "\<forall>b\<in>set bs. b \<noteq> [] \<and> (\<forall>it\<in>set b. emb_ok w m H (fst it))"
    and "\<forall>r\<in>set R. length r = H"
  shows "batch_loop w m (Some (pert_of H R Ys)) bs =
           (if bs = [] \<or> (H \<noteq> 1 \<and> (\<forall>b\<in>set bs. 2 \<le> length b))
            then Inr (Some (pert_of H (R @ map (emb_of w m) (map fst (concat bs)))
                                      (Ys @ map str_of (concat bs))))
            else Inl (Raised ''ValueError''))"
  using assms
proof (induction bs arbitrary: R Ys)
  case Nil
  then show ?case by simp
next
  case (Cons b bs)
  let ?E = "map (emb_of w m) (map fst b)"
  let ?Y = "map str_of b"
  from Cons.prems have ne: "b \<noteq> []" and ok: "\<forall>it\<in>set b. emb_ok w m H (fst it)" by auto
  have cg: "classifier_get_embeddings w m b = Inr (?E, ?Y)"
    using ok by (rule classifier_get_embeddings_ok)
  have lenE: "\<forall>r\<in>set ?E. length r = H"
    using ok by (auto dest: emb_ok_emb_of)
  show ?case
  proof (cases "2 \<le> length b \<and> H \<noteq> 1")
    case True
    then have step: "on_ok (AnnData_init (squeeze ?E)) (\<lambda>a. set_obs_column a ''perturbations'' ?Y)
                       = Inr (pert_of H ?E ?Y)"
      using lenE by (intro batch_step_ok) auto
    have cc: "anndata_concat (pert_of H R Ys) (pert_of H ?E ?Y) = pert_of H (R @ ?E) (Ys @ ?Y)"
      using Cons.prems(2) lenE by (rule anndata_concat_pert_of)
    have R': "\<forall>r\<in>set (R @ ?E). length r = H"
      using Cons.prems(2) lenE by auto
    have rest: "\<forall>b\<in>set bs. b \<noteq> [] \<and> (\<forall>it\<in>set b. emb_ok w m H (fst it))"
      using Cons.prems(1) by simp
    from step obtain a0 where a0: "AnnData_init (squeeze ?E) = Inr a0"
      and a1: "set_obs_column a0 ''perturbations'' ?Y = Inr (pert_of H ?E ?Y)"
      by (auto simp: on_ok_Inr_iff)
    have "batch_loop w m (Some (pert_of H R Ys)) (b # bs)
            = batch_loop w m (Some (pert_of H (R @ ?E) (Ys @ ?Y))) bs"
      using a0 a1 cc by (simp add: cg on_ok_def)
    also note Cons.IH [OF rest R', of "Ys @ ?Y"]
    finally show ?thesis using True by auto
  next
    case False
    moreover from ne have "0 < length b" by simp
    ultimately have "length b = 1 \<or> H = 1" by arith
    then have "length ?E = 1 \<or> H = 1" by simp
    then have "AnnData_init (squeeze ?E) = Inl (Raised ''ValueError'')"
      using ne lenE by (intro batch_step_fail) auto
    then have "batch_loop w m (Some (pert_of H R Ys)) (b # bs) = Inl (Raised ''ValueError'')"
      by (simp add: cg on_ok_def)
    with False show ?thesis by auto
  qed
qed

lemma batch_loop_None:
  assumes "\<forall>b\<in>set bs. b \<noteq> [] \<and> (\<forall>it\<in>set b. emb_ok w m H (fst it))" and "bs \<noteq> []"
  shows "batch_loop w m None bs =
           (if H \<noteq> 1 \<and> (\<forall>b\<in>set bs. 2 \<le> length b)
            then Inr (Some (pert_of H (map (emb_of w m) (map fst (concat bs)))
                                      (map str_of (concat bs))))
            else Inl (Raised ''ValueError''))"
proof -
  from assms(2) obtain b rest where bs: "bs = b # rest" by (cases bs) auto
  let ?E = "map (emb_of w m) (map fst b)"
  let ?Y = "map str_of b"
  from assms bs have ne: "b \<noteq> []" and ok: "\<forall>it\<in>set b. emb_ok w m H (fst it)" by auto
  have cg: "classifier_get_embeddings w m b = Inr (?E, ?Y)"
    using ok by (rule classifier_get_embeddings_ok)
  have lenE: "\<forall>r\<in>set ?E. length r = H"
    using ok by (auto dest: emb_ok_emb_of)
  show ?thesis
  proof (cases "2 \<le> length b \<and> H \<noteq> 1")
    case True
    then have step: "on_ok (AnnData_init (squeeze ?E)) (\<lambda>a. set_obs_column a ''perturbations'' ?Y)
                       = Inr (pert_of H ?E ?Y)"
      using lenE by (intro batch_step_ok) auto
    from step obtain a0 where a0: "AnnData_init (squeeze ?E) = Inr a0"
      and a1: "set_obs_column a0 ''perturbations'' ?Y = Inr (pert_of H ?E ?Y)"
      by (auto simp: on_ok_Inr_iff)
    have rest: "\<forall>b\<in>set rest. b \<noteq> [] \<and> (\<forall>it\<in>set b. emb_ok w m H (fst it))"
      using assms(1) bs by simp
    have "batch_loop w m None bs = batch_loop w m (Some (pert_of H ?E ?Y)) rest"
      using a0 a1 by (simp add: bs cg on_ok_def)
    also note batch_loop_Some [OF rest lenE, of ?Y]
    finally show ?thesis using True bs by auto
  next
    case False
    moreover from ne have "0 < length b" by simp
    ultimately have "length b = 1 \<or> H = 1" by arith
    then have "length ?E = 1 \<or> H = 1" by simp
    then have "AnnData_init (squeeze ?E) = Inl (Raised ''ValueError'')"
      using ne lenE by (intro batch_step_fail) auto
    then have "batch_loop w m None bs = Inl (Raised ''ValueError'')"
      by (simp add: bs cg on_ok_def)
    with False bs show ?thesis by auto
  qed
qed

subsection \<open>Evaluating get_embeddings\<close>

lemma dataset_items_fst:
  "length (labels ds) = length (data ds) \<Longrightarrow> length (pert_labels ds) = length (data ds)
     \<Longrightarrow> map fst (dataset_items ds) = data ds"
  by (simp add: dataset_items_def)

lemma dataset_items_str:
  "length (labels ds) = length (data ds) \<Longrightarrow> length (pert_labels ds) = length (data ds)
     \<Longrightarrow> map str_of (dataset_items ds) = pert_labels ds"
proof -
  assume a: "length (labels ds) = length (data ds)" "length (pert_labels ds) = length (data ds)"
  have "map str_of (dataset_items ds) = map snd (map snd (dataset_items ds))"
    by (simp add: str_of_def split_def comp_def)
  also have "map snd (dataset_items ds) = zip (labels ds) (pert_labels ds)"
    using a by (simp add: dataset_items_def)
  also have "map snd \<dots> = pert_labels ds" using a by simp
  finally show ?thesis .
qed

lemma dataset_items_length:
  "length (labels ds) = length (data ds) \<Longrightarrow> length (pert_labels ds) = length (data ds)
     \<Longrightarrow> length (dataset_items ds) = length (data ds)"
  by (simp add: dataset_items_def)

lemma delete_absent: "k \<notin> set (columns t) \<Longrightarrow> AList.delete k t = t"
  by (induction t) (auto simp: columns_def)

lemma get_embeddings_eval:
  fixes self :: "'a::{zero,linorder} DiscriminatorClassifierSpace"
  assumes m: "model self = Some (net self)"
    and b: "2 \<le> batch_size (entire_dataset self)"
    and ll: "length (labels (dataset (entire_dataset self))) = length (data (dataset (entire_dataset self)))"
    and lp: "length (pert_labels (dataset (entire_dataset self))) = length (data (dataset (entire_dataset self)))"
    and ne: "data (dataset (entire_dataset self)) \<noteq> []"
    and ok: "\<forall>x\<in>set (data (dataset (entire_dataset self))). emb_ok w (net self) H x"
    and cols: "\<forall>(k, c)\<in>set (adata_obs self). length c = length (data (dataset (entire_dataset self)))"
    and ep: "''encoded_perturbations'' \<in> set (columns (adata_obs self))"
  shows "fst (get_embeddings w self) =
           (if H \<noteq> 1 \<and> length (data (dataset (entire_dataset self))) mod batch_size (entire_dataset self) \<noteq> 1
            then Inr (expected_embeddings w self H)
            else Inl (Raised ''ValueError''))"
proof -
  let ?ds = "dataset (entire_dataset self)"
  let ?b = "batch_size (entire_dataset self)"
  let ?items = "dataset_items ?ds"
  let ?bs = "chunks ?b ?items"
  from b have b0: "0 < ?b" by simp
  have cc: "concat ?bs = ?items" using b0 by (rule concat_chunks)
  have len: "length ?items = length (data ?ds)" using ll lp by (rule dataset_items_length)
  with ne have "?items \<noteq> []" by auto
  with cc have bsne: "?bs \<noteq> []" by auto
  have allok: "\<forall>c\<in>set ?bs. c \<noteq> [] \<and> (\<forall>it\<in>set c. emb_ok w (net self) H (fst it))"
  proof (intro ballI conjI)
    fix c assume c: "c \<in> set ?bs"
    then show "c \<noteq> []" by (rule chunks_nonempty)
    fix it assume "it \<in> set c"
    with c have "it \<in> set (concat ?bs)" by auto
    then have "it \<in> set ?items" by (simp only: cc)
    then have "fst it \<in> set (map fst ?items)" by simp
    then have "fst it \<in> set (data ?ds)" by (simp only: dataset_items_fst [OF ll lp])
    with ok show "emb_ok w (net self) H (fst it)" by blast
  qed
  have ge2: "(\<forall>c\<in>set ?bs. 2 \<le> length c) \<longleftrightarrow> length (data ?ds) mod ?b \<noteq> 1"
    using chunks_all_ge2 [OF b, of ?items] len by simp
  have loop: "batch_loop w (net self) None ?bs =
           (if H \<noteq> 1 \<and> length (data ?ds) mod ?b \<noteq> 1
            then Inr (Some (pert_of H (map (emb_of w (net self)) (data ?ds)) (pert_labels ?ds)))
            else Inl (Raised ''ValueError''))"
    using batch_loop_None [OF allok bsne]
    by (simp only: ge2 cc dataset_items_fst [OF ll lp] dataset_items_str [OF ll lp])
  show ?thesis
  proof (cases "H \<noteq> 1 \<and> length (data ?ds) mod ?b \<noteq> 1")
    case False
    with loop show ?thesis
      by (auto simp: get_embeddings_def m loader_batches_def)
  next
    case True
    let ?pert = "pert_of H (map (emb_of w (net self)) (data ?ds)) (pert_labels ?ds)"
    let ?aobs = "AList.delete ''perturbations'' (adata_obs self)"
    from True loop have l: "batch_loop w (net self) None ?bs = Inr (Some ?pert)" by simp
    have a1: "(if ''perturbations'' \<in> set (columns (adata_obs self))
               then AList.delete ''perturbations'' (adata_obs self) else adata_obs self) = ?aobs"
      by (simp add: delete_absent)
    have a2: "list_all (\<lambda>(k, c). length c = n_obs ?pert) ?aobs"
      using cols by (auto simp: list_all_iff n_obs_def pert_of_def AList.delete_eq)
    have a3: "''encoded_perturbations'' \<in> set (columns (obs ?pert @ ?aobs))"
      using ep by (auto simp: columns_def AList.delete_eq image_iff)
    have a4: "?pert\<lparr> obs := AList.delete ''encoded_perturbations'' (obs ?pert @ ?aobs) \<rparr>
                = expected_embeddings w self H"
      by (simp add: pert_of_def expected_embeddings_def AList.delete_eq)
    show ?thesis
      using True a2 a3 a4
      by (simp add: get_embeddings_def m loader_batches_def l a1 Let_def)
  qed
qed

subsection \<open>Facts about a loaded model\<close>

lemma PLDataset_init_InrD:
  assumes "PLDataset_init ad t l k = Inr d"
  shows "map_of (obs ad) t = Some (labels d)"
    and "map_of (obs ad) l = Some (pert_labels d)"
    and "data d = X ad \<or> (\<exists>key. (key, data d) \<in> set (layers ad))"
  using assms
  by (auto simp: PLDataset_init_def on_ok_Inr_iff obs_column_Inr_iff
      split: option.splits if_splits dest: map_of_SomeD)

lemma set_update_subset: "(k', c) \<in> set (AList.update k v al) \<Longrightarrow> (k', c) = (k, v) \<or> (k', c) \<in> set al"
  by (induction al) (auto split: if_splits)

lemma wf_adata_update:
  assumes "wf_adata ad" and "length c = n_obs ad"
  shows "wf_adata (ad\<lparr> obs := AList.update k c (obs ad) \<rparr>)"
  using assms
  by (auto simp: wf_adata_def n_obs_def n_vars_def list_all_iff columns_def distinct_update
      dest!: set_update_subset)

lemma wf_adata_column: "wf_adata ad \<Longrightarrow> map_of (obs ad) k = Some c \<Longrightarrow> length c = n_obs ad"
  by (auto simp: wf_adata_def list_all_iff dest!: map_of_SomeD)

lemma wf_adata_data:
  assumes "wf_adata ad" and "PLDataset_init ad t l k = Inr d"
  shows "length (data d) = n_obs ad" and "\<forall>r\<in>set (data d). length r = n_vars ad"
    and "length (labels d) = n_obs ad" and "length (pert_labels d) = n_obs ad"
proof -
  from PLDataset_init_InrD(3) [OF assms(2)] assms(1)
  show "length (data d) = n_obs ad" and "\<forall>r\<in>set (data d). length r = n_vars ad"
    by (auto simp: wf_adata_def list_all_iff n_obs_def)
  from PLDataset_init_InrD(1,2) [OF assms(2)] assms(1)
  show "length (labels d) = n_obs ad" and "length (pert_labels d) = n_obs ad"
    by (auto dest: wf_adata_column)
qed

lemma adata_rows_obs:
  assumes "adata_rows ad idx = Inr a"
  shows "map_of (obs a) k = map_option (\<lambda>c. map (\<lambda>i. c ! i) idx) (map_of (obs ad) k)"
    and "\<forall>i\<in>set idx. i < n_obs ad"
proof -
  from assms have a: "a = ad\<lparr> X := map (\<lambda>i. X ad ! i) idx,
                     obs := map (\<lambda>(k, c). (k, map (\<lambda>i. c ! i) idx)) (obs ad),
                     layers := map (\<lambda>(k, m). (k, map (\<lambda>i. m ! i) idx)) (layers ad) \<rparr>"
    and b: "list_all (\<lambda>i. i < n_obs ad) idx"
    by (auto simp: adata_rows_def split: if_splits)
  show "map_of (obs a) k = map_option (\<lambda>c. map (\<lambda>i. c ! i) idx) (map_of (obs ad) k)"
    unfolding a by (induction "obs ad" arbitrary: ad) (simp_all add: map_of_map)
  from b show "\<forall>i\<in>set idx. i < n_obs ad" by (simp add: list_all_iff)
qed

lemma emb_ok_hidden:
  assumes nw: "network m = hidden_blocks p bn lnm a hs @ [l]"
    and rs: "respects_shapes w 0 (network m)"
    and x: "length x = a"
  shows "emb_ok w m (last (a # hs)) x"
proof -
  from rs nw have "respects_shapes w 0 (hidden_blocks p bn lnm a hs)"
    by (simp add: respects_shapes_append)
  from run_hidden_blocks [OF this x] show ?thesis
    by (simp add: emb_ok_def embedding_def nw)
qed

lemma train_weights_of_nonempty: "train_weights_of ls = Inr ws \<Longrightarrow> ls \<noteq> []"
  by (auto simp: train_weights_of_def split: if_splits)

lemma load_facts:
  assumes ld: "load tts adata tc lk hid p bn bs f1 f2 = (Inr self, adata')"
    and wf: "wf_adata adata"
  obtains labs where "map_of (obs adata) tc = Some (map Str labs)"
    and "length labs = n_obs adata"
    and "adata' = adata\<lparr> obs := AList.update ''encoded_perturbations''
                                   (map Vec (encode_labels labs)) (obs adata) \<rparr>"
    and "wf_adata adata'"
    and "network (net self) = hidden_blocks p bn False (n_vars adata) (case hid of None \<Rightarrow> [512] | Some h \<Rightarrow> h)
           @ [Linear (last (n_vars adata # (case hid of None \<Rightarrow> [512] | Some h \<Rightarrow> h))) (card (set labs))]"
    and "activation (net self) = ''linear''"
    and "model self = None"
    and "adata_obs self = obs adata'"
    and "0 < bs"
    and "batch_size (entire_dataset self) = nat (2 * bs)"
    and "PLDataset_init adata' ''encoded_perturbations'' tc lk = Inr (dataset (entire_dataset self))"
    and "0 < n_obs adata"
proof -
  define hidden where "hidden = (case hid of None \<Rightarrow> [512] | Some h \<Rightarrow> h)"
  from ld obtain labs where col: "map_of (obs adata) tc = Some (map Str labs)"
    and ad: "adata' = adata\<lparr> obs := AList.update ''encoded_perturbations''
                                   (map Vec (encode_labels labs)) (obs adata) \<rparr>"
    and rest: "load_rest tts adata' tc lk hidden (length (remdups labs)) p bn bs f1 f2 = Inr self"
    unfolding hidden_def by (rule load_InrD)
  from wf col have len: "length labs = n_obs adata" by (auto dest: wf_adata_column)
  then have wf': "wf_adata adata'"
    unfolding ad by (intro wf_adata_update [OF wf]) (simp add: encode_labels_def)
  have nv: "n_vars adata' = n_vars adata" and no: "n_obs adata' = n_obs adata"
    by (simp_all add: ad n_vars_def n_obs_def)
  have k: "length (remdups labs) = card (set labs)" by (simp add: length_remdups_card_conv)
  from rest obtain Xtr atr dtr wts mlp dtot where
    atr: "adata_rows adata' Xtr = Inr atr"
    and dtr: "PLDataset_init atr ''encoded_perturbations'' tc lk = Inr dtr"
    and wts: "train_weights_of (labels dtr) = Inr wts"
    and bs: "0 < bs"
    and mlp: "MLP_init ([n_vars adata'] @ hidden @ [length (remdups labs)]) p bn False ''linear'' = Inr mlp"
    and dtot: "PLDataset_init adata' ''encoded_perturbations'' tc lk = Inr dtot"
    and self: "net self = mlp" "model self = None" "adata_obs self = obs adata'"
      "entire_dataset self = \<lparr> dataset = dtot, batch_size = nat (bs * 2), sampler = None \<rparr>"
    by (rule load_rest_InrD) simp
  from mlp have nw: "network mlp = hidden_blocks p bn False (n_vars adata) hidden
                             @ [Linear (last (n_vars adata # hidden)) (card (set labs))]"
    and act: "activation mlp = ''linear''"
    using mlp_layers_hidden [of "n_vars adata" hidden "card (set labs)" p bn False]
    by (auto simp: MLP_init_def nv k split: if_splits)
  have pos: "0 < n_obs adata"
  proof -
    from wts have "labels dtr \<noteq> []" by (rule train_weights_of_nonempty)
    moreover from PLDataset_init_InrD(1) [OF dtr] adata_rows_obs(1) [OF atr]
    have "\<exists>c. labels dtr = map (\<lambda>i. c ! i) Xtr" by (auto intro: sym)
    ultimately have "Xtr \<noteq> []" by auto
    then have "hd Xtr \<in> set Xtr" by simp
    with adata_rows_obs(2) [OF atr] have "hd Xtr < n_obs adata'" by blast
    then show ?thesis by (simp add: no)
  qed
  have b2: "nat (bs * 2) = nat (2 * bs)" by (simp add: mult.commute)
  show ?thesis
    using col len ad wf' nw act self bs dtot pos
    unfolding hidden_def b2
    by (intro that [of labs]) simp_all
qed

subsection \<open>get_embeddings on a loaded and trained model\<close>

lemma snd_train: "snd (train tr me self) = self\<lparr> model := Some (net self) \<rparr>"
  by (simp add: train_def Let_def split: option.splits)

lemma train_fields [simp]:
  "model (snd (train tr me self)) = Some (net self)"
  "net (snd (train tr me self)) = net self"
  "entire_dataset (snd (train tr me self)) = entire_dataset self"
  "adata_obs (snd (train tr me self)) = adata_obs self"
  "train_dataloader (snd (train tr me self)) = train_dataloader self"
  "valid_dataloader (snd (train tr me self)) = valid_dataloader self"
  "test_dataloader (snd (train tr me self)) = test_dataloader self"
  by (simp_all add: snd_train)

lemma expected_embeddings_train [simp]:
  "expected_embeddings w (snd (train tr me self)) H = expected_embeddings w self H"
  by (simp add: expected_embeddings_def)

lemma loaded_emb_ok:
  assumes ld: "load tts adata tc lk hid p bn bs f1 f2 = (Inr self, adata')"
    and wf: "wf_adata adata"
    and rs: "respects_shapes w 0 (network (net self))"
  shows "\<forall>x\<in>set (data (dataset (entire_dataset self))). emb_ok w (net self) (embedding_width adata hid) x"
proof
  fix x assume x: "x \<in> set (data (dataset (entire_dataset self)))"
  from ld wf obtain labs where wf': "wf_adata adata'"
    and ad: "adata' = adata\<lparr> obs := AList.update ''encoded_perturbations''
                                   (map Vec (encode_labels labs)) (obs adata) \<rparr>"
    and nw: "network (net self) = hidden_blocks p bn False (n_vars adata) (case hid of None \<Rightarrow> [512] | Some h \<Rightarrow> h)
           @ [Linear (last (n_vars adata # (case hid of None \<Rightarrow> [512] | Some h \<Rightarrow> h))) (card (set labs))]"
    and dt: "PLDataset_init adata' ''encoded_perturbations'' tc lk = Inr (dataset (entire_dataset self))"
    by (rule load_facts)
  have "n_vars adata' = n_vars adata" by (simp add: ad n_vars_def)
  with wf_adata_data(2) [OF wf' dt] x have "length x = n_vars adata" by auto
  from emb_ok_hidden [OF nw rs this] show "emb_ok w (net self) (embedding_width adata hid) x"
    by (simp add: embedding_width_def hidden_of_def)
qed

lemma get_embeddings_after_load:
  assumes ld: "load tts adata tc lk hid p bn bs f1 f2 = (Inr self, adata')"
    and wf: "wf_adata adata"
    and rs: "respects_shapes w 0 (network (net self))"
  shows "fst (get_embeddings w (snd (train tr me self))) =
           (if embedding_width adata hid \<noteq> 1 \<and> n_obs adata mod nat (2 * bs) \<noteq> 1
            then Inr (expected_embeddings w self (embedding_width adata hid))
            else Inl (Raised ''ValueError''))"
proof -
  from ld wf obtain labs where wf': "wf_adata adata'"
    and ad: "adata' = adata\<lparr> obs := AList.update ''encoded_perturbations''
                                   (map Vec (encode_labels labs)) (obs adata) \<rparr>"
    and ao: "adata_obs self = obs adata'"
    and bs: "0 < bs"
    and bsz: "batch_size (entire_dataset self) = nat (2 * bs)"
    and dt: "PLDataset_init adata' ''encoded_perturbations'' tc lk = Inr (dataset (entire_dataset self))"
    and pos: "0 < n_obs adata"
    by (rule load_facts)
  have no: "n_obs adata' = n_obs adata" by (simp add: ad n_obs_def)
  note d = wf_adata_data [OF wf' dt, unfolded no]
  let ?t = "snd (train tr me self)"
  have t: "entire_dataset ?t = entire_dataset self" "net ?t = net self" "adata_obs ?t = adata_obs self"
    "model ?t = Some (net ?t)"
    by simp_all
  have 1: "2 \<le> batch_size (entire_dataset ?t)" using bs by (simp add: t bsz)
  have 2: "length (labels (dataset (entire_dataset ?t))) = length (data (dataset (entire_dataset ?t)))"
    and 3: "length (pert_labels (dataset (entire_dataset ?t))) = length (data (dataset (entire_dataset ?t)))"
    and 4: "data (dataset (entire_dataset ?t)) \<noteq> []"
    using d pos by (auto simp: t)
  have 5: "\<forall>x\<in>set (data (dataset (entire_dataset ?t))). emb_ok w (net ?t) (embedding_width adata hid) x"
    using loaded_emb_ok [OF ld wf rs] by (simp add: t)
  have 6: "\<forall>(k, c)\<in>set (adata_obs ?t). length c = length (data (dataset (entire_dataset ?t)))"
    using wf' d(1) by (auto simp: t ao wf_adata_def list_all_iff no)
  have 7: "''encoded_perturbations'' \<in> set (columns (adata_obs ?t))"
    by (simp add: t ao ad columns_def AList.dom_update)
  from get_embeddings_eval [OF t(4) 1 2 3 4 5 6 7] show ?thesis
    by (simp add: t bsz d(1))
qed

lemma demo_wf: "wf_adata demo_adata"
  by (simp add: wf_adata_def demo_adata_def n_vars_def n_obs_def columns_def demo_labels_def)

lemma demo_setting:
  obtains self adata' where
    "load demo_split demo_adata ''gene_target'' None (Some [3]) 0 True 3 (1/5) (1/4) = (Inr self, adata')"
    and "respects_shapes demo_w 0 (network (net self))"
proof -
  obtain self adata' where
    ld: "load demo_split demo_adata ''gene_target'' None (Some [3]) 0 True 3 (1/5) (1/4) = (Inr self, adata')"
    using demo_load_ok by (metis sum.collapse(2) prod.collapse)
  from ld demo_wf obtain labs where l: "map_of (obs demo_adata) ''gene_target'' = Some (map Str labs)"
    and nw: "network (net self) = hidden_blocks 0 True False (n_vars demo_adata) (case Some [3] of None \<Rightarrow> [512] | Some h \<Rightarrow> h)
           @ [Linear (last (n_vars demo_adata # (case Some [3] of None \<Rightarrow> [512] | Some h \<Rightarrow> h))) (card (set labs))]"
    by (rule load_facts)
  have "map_of (obs demo_adata) ''gene_target'' = Some (map Str demo_labels)"
    by (simp add: demo_adata_def)
  with l have "labs = demo_labels" by (simp add: map_Str_inject)
  moreover have "card (set demo_labels) = 2" by code_simp
  ultimately have c: "card (set labs) = 2" by simp
  have "respects_shapes demo_w 0 (network (net self))"
    unfolding nw c by (simp add: norm_layers_def layer_ok_def demo_w_def n_vars_def demo_adata_def)
  with ld show ?thesis by (rule that)
qed




subsection \<open>The observation table of the result\<close>

lemma expected_embeddings_wf:
  assumes "\<forall>x\<in>set (data (dataset (entire_dataset self))). emb_ok w (net self) H x"
    and "\<forall>(k, c)\<in>set (adata_obs self). length c = length (data (dataset (entire_dataset self)))"
    and "length (pert_labels (dataset (entire_dataset self))) = length (data (dataset (entire_dataset self)))"
    and "distinct (columns (adata_obs self))"
  shows "wf_adata (expected_embeddings w self H)"
  using assms
  by (auto simp: wf_adata_def expected_embeddings_def n_vars_def n_obs_def list_all_iff columns_def
      AList.delete_eq distinct_map_filter dest: emb_ok_emb_of)

text \<open>
  What \<^verbatim>\<open>get_embeddings\<close> returns when it returns. On a loaded model whose target column
  is not the internal column \<^verbatim>\<open>encoded_perturbations\<close>, the result is an annotated data
  object (a matrix with one row per cell, all rows of one width, and an observation table
  with one entry per cell in every column); row \<open>i\<close> of its matrix is the embedding that
  \<^verbatim>\<open>MLP.embedding\<close> computes on cell \<open>i\<close>; and its observation column \<^verbatim>\<open>perturbations\<close>
  is the target column of the input. It returns whenever no batch of the full-data loader
  holds a single cell and the embedding is not one feature wide.
\<close>

lemma get_embeddings_annotated_result:
  assumes ld: "load tts adata tc lk hid p bn bs f1 f2 = (Inr self, adata')"
    and wf: "wf_adata adata"
    and rs: "respects_shapes w 0 (network (net self))"
    and tc: "tc \<noteq> ''encoded_perturbations''"
  shows "(embedding_width adata hid \<noteq> 1 \<and> n_obs adata mod nat (2 * bs) \<noteq> 1
            \<longrightarrow> (\<exists>r. fst (get_embeddings w (snd (train tr me self))) = Inr r))
       \<and> (\<forall>r. fst (get_embeddings w (snd (train tr me self))) = Inr r
            \<longrightarrow> wf_adata r \<and> n_obs r = n_obs adata
                \<and> (\<forall>i<n_obs adata. embedding w (net self) (data (dataset (entire_dataset self)) ! i)
                                        = Inr (X r ! i))
                \<and> map_of (obs r) ''perturbations'' = map_of (obs adata) tc)"
proof -
  let ?H = "embedding_width adata hid"
  let ?ds = "dataset (entire_dataset self)"
  note ge = get_embeddings_after_load [OF ld wf rs, where tr = tr and me = me]
  from ld wf obtain labs where wf': "wf_adata adata'"
    and ad: "adata' = adata\<lparr> obs := AList.update ''encoded_perturbations''
                                   (map Vec (encode_labels labs)) (obs adata) \<rparr>"
    and ao: "adata_obs self = obs adata'"
    and dt: "PLDataset_init adata' ''encoded_perturbations'' tc lk = Inr ?ds"
    by (rule load_facts)
  have no: "n_obs adata' = n_obs adata" by (simp add: ad n_obs_def)
  note d = wf_adata_data [OF wf' dt, unfolded no]
  have pl: "map_of (obs adata) tc = Some (pert_labels ?ds)"
    using PLDataset_init_InrD(2) [OF dt] tc by (simp add: ad update_conv')
  have w: "wf_adata (expected_embeddings w self ?H)"
  proof (rule expected_embeddings_wf)
    show "\<forall>x\<in>set (data ?ds). emb_ok w (net self) ?H x" by (rule loaded_emb_ok [OF ld wf rs])
    show "\<forall>(k, c)\<in>set (adata_obs self). length c = length (data ?ds)"
      using wf' d(1) by (auto simp: ao wf_adata_def list_all_iff no)
    show "length (pert_labels ?ds) = length (data ?ds)" using d by simp
    show "distinct (columns (adata_obs self))" using wf' by (simp add: ao wf_adata_def)
  qed
  have n: "n_obs (expected_embeddings w self ?H) = n_obs adata"
    using d(1) by (simp add: expected_embeddings_def n_obs_def)
  have x: "\<forall>i<n_obs adata. embedding w (net self) (data ?ds ! i)
                              = Inr (X (expected_embeddings w self ?H) ! i)"
  proof (intro allI impI)
    fix i assume i: "i < n_obs adata"
    with d(1) have "data ?ds ! i \<in> set (data ?ds)" by simp
    with loaded_emb_ok [OF ld wf rs] have "emb_ok w (net self) ?H (data ?ds ! i)" by blast
    then have "embedding w (net self) (data ?ds ! i) = Inr (emb_of w (net self) (data ?ds ! i))"
      by (simp add: emb_ok_emb_of)
    with i d(1) show "embedding w (net self) (data ?ds ! i)
                              = Inr (X (expected_embeddings w self ?H) ! i)"
      by (simp add: expected_embeddings_def)
  qed
  have c: "map_of (obs (expected_embeddings w self ?H)) ''perturbations'' = map_of (obs adata) tc"
    by (simp add: expected_embeddings_def pl)
  show ?thesis
  proof (intro conjI allI impI)
    assume "?H \<noteq> 1 \<and> n_obs adata mod nat (2 * bs) \<noteq> 1"
    with ge show "\<exists>r. fst (get_embeddings w (snd (train tr me self))) = Inr r" by simp
  next
    fix r assume "fst (get_embeddings w (snd (train tr me self))) = Inr r"
    with ge have r: "r = expected_embeddings w self ?H" by (auto split: if_splits)
    show "wf_adata r" unfolding r by (rule w)
    show "n_obs r = n_obs adata" unfolding r by (rule n)
    show "map_of (obs r) ''perturbations'' = map_of (obs adata) tc" unfolding r by (rule c)
    fix i assume "i < n_obs adata"
    with x show "embedding w (net self) (data ?ds ! i) = Inr (X r ! i)" unfolding r by blast
  qed
qed

text \<open>
  C4, at a failing input. The nine cells loaded with \<^verbatim>\<open>batch_size=4\<close> and both split
  fractions one third: the training, validation and test loaders make batches of four, of
  two and of three cells, so that training returns; the full-data loader makes a batch of
  eight cells and a batch of one cell, and \<^verbatim>\<open>get_embeddings\<close> raises \<^verbatim>\<open>ValueError\<close>: no
  annotated data object is returned. (Where \<^verbatim>\<open>get_embeddings\<close> returns, its result is
  the object described before \<open>get_embeddings_annotated_result\<close>.)
\<close>

theorem get_embeddings_returns_no_object:
  "\<not> isl (fst (load demo_split demo_adata ''gene_target'' None (Some [3]) 0 True 4 (1/3) (1/3)))
   \<and> map length (loader_batches (train_dataloader (projr (fst
        (load demo_split demo_adata ''gene_target'' None (Some [3]) 0 True 4 (1/3) (1/3)))))) = [4]
   \<and> map length (loader_batches (valid_dataloader (projr (fst
        (load demo_split demo_adata ''gene_target'' None (Some [3]) 0 True 4 (1/3) (1/3)))))) = [2]
   \<and> map length (loader_batches (test_dataloader (projr (fst
        (load demo_split demo_adata ''gene_target'' None (Some [3]) 0 True 4 (1/3) (1/3)))))) = [3]
   \<and> fst (train (\<lambda>s. None) 40 (projr (fst
        (load demo_split demo_adata ''gene_target'' None (Some [3]) 0 True 4 (1/3) (1/3))))) = Inr ()
   \<and> map length (loader_batches (entire_dataset (projr (fst
        (load demo_split demo_adata ''gene_target'' None (Some [3]) 0 True 4 (1/3) (1/3)))))) = [8, 1]
   \<and> fst (get_embeddings demo_w (snd (train (\<lambda>s. None) 40 (projr (fst
        (load demo_split demo_adata ''gene_target'' None (Some [3]) 0 True 4 (1/3) (1/3)))))))
       = Inl (Raised ''ValueError'')"
  by code_simp

subsection \<open>The width of the embedding\<close>

lemma get_embeddings_InrD:
  assumes ld: "load tts adata tc lk hid p bn bs f1 f2 = (Inr self, adata')"
    and wf: "wf_adata adata"
    and rs: "respects_shapes w 0 (network (net self))"
    and r: "fst (get_embeddings w (snd (train tr me self))) = Inr r"
  shows "r = expected_embeddings w self (embedding_width adata hid)"
    and "embedding_width adata hid \<noteq> 1" and "n_obs adata mod nat (2 * bs) \<noteq> 1"
  using get_embeddings_after_load [OF ld wf rs] r by (auto split: if_splits)

text \<open>
  C7, as amended. The feature dimension of the returned embedding is the last entry of
  \<^verbatim>\<open>hidden_dim\<close> when that list is not empty (512 when \<^verbatim>\<open>hidden_dim\<close> is not given), and
  the number of variables when it is empty; every row has that width. The code puts no
  bound between this width and the number of variables.
\<close>

theorem embedding_feature_dimension:
  assumes ld: "load tts adata tc lk hid p bn bs f1 f2 = (Inr self, adata')"
    and wf: "wf_adata adata"
    and rs: "respects_shapes w 0 (network (net self))"
    and r: "fst (get_embeddings w (snd (train tr me self))) = Inr r"
  shows "(\<forall>row\<in>set (X r). length row = n_vars r)
       \<and> (hid = None \<longrightarrow> n_vars r = 512)
       \<and> (\<forall>h. hid = Some h \<and> h \<noteq> [] \<longrightarrow> n_vars r = last h)
       \<and> (hid = Some [] \<longrightarrow> n_vars r = n_vars adata)"
proof -
  let ?H = "embedding_width adata hid"
  have e: "r = expected_embeddings w self ?H" by (rule get_embeddings_InrD(1) [OF ld wf rs r])
  have nv: "n_vars r = ?H" by (simp add: e expected_embeddings_def n_vars_def)
  have rows: "\<forall>row\<in>set (X r). length row = n_vars r"
    using loaded_emb_ok [OF ld wf rs]
    by (auto simp: e expected_embeddings_def n_vars_def dest: emb_ok_emb_of)
  show ?thesis using rows nv by (auto simp: embedding_width_def hidden_of_def)
qed

theorem embedding_feature_dimension_witness:
  "\<exists>self adata' r.
      load demo_split demo_adata ''gene_target'' None (Some [3]) 0 True 3 (1/5) (1/4) = (Inr self, adata')
    \<and> fst (get_embeddings demo_w (snd (train (\<lambda>s. None) 40 self))) = Inr r
    \<and> n_vars r = 3 \<and> (\<forall>row\<in>set (X r). length row = 3)"
proof -
  obtain self adata' where
    ld: "load demo_split demo_adata ''gene_target'' None (Some [3]) 0 True 3 (1/5) (1/4) = (Inr self, adata')"
    and rs: "respects_shapes demo_w 0 (network (net self))"
    by (rule demo_setting)
  have "embedding_width demo_adata (Some [3]) \<noteq> 1 \<and> n_obs demo_adata mod nat (2 * 3) \<noteq> 1"
    by (simp add: embedding_width_def hidden_of_def n_obs_def demo_adata_def)
  then obtain r where r: "fst (get_embeddings demo_w (snd (train (\<lambda>s. None) 40 self))) = Inr r"
    by (simp add: get_embeddings_after_load [OF ld demo_wf rs])
  from embedding_feature_dimension [OF ld demo_wf rs r] ld r
  show ?thesis by auto
qed

text \<open>
  C7 as it is stated fails: with \<^verbatim>\<open>hidden_dim=[3]\<close> on the data set of two genes the
  embedding is three features wide, which is not below the number of genes.
\<close>

theorem embedding_not_lower_dimensional:
  "\<not> isl (fst (load demo_split demo_adata ''gene_target'' None (Some [3]) 0 True 3 (1/5) (1/4)))
   \<and> \<not> isl (fst (get_embeddings demo_w (snd (train (\<lambda>s. None) 40 (projr (fst
         (load demo_split demo_adata ''gene_target'' None (Some [3]) 0 True 3 (1/5) (1/4))))))))
   \<and> n_vars (projr (fst (get_embeddings demo_w (snd (train (\<lambda>s. None) 40 (projr (fst
         (load demo_split demo_adata ''gene_target'' None (Some [3]) 0 True 3 (1/5) (1/4)))))))))
       = last [3]
   \<and> \<not> n_vars (projr (fst (get_embeddings demo_w (snd (train (\<lambda>s. None) 40 (projr (fst
         (load demo_split demo_adata ''gene_target'' None (Some [3]) 0 True 3 (1/5) (1/4)))))))))
       < n_vars demo_adata"
  by code_simp

subsection \<open>The embedding is the input of the final layer\<close>








subsection \<open>Squeezing the embedding of a batch\<close>

lemma tensor_ndim_squeeze_single:
  "E \<noteq> [] \<Longrightarrow> length E = 1 \<or> length (hd E) = 1 \<Longrightarrow> tensor_ndim (squeeze E) < 2"
  by (auto simp: squeeze_def tensor_ndim_def)

lemma loader_batches_after_load:
  assumes ld: "load tts adata tc lk hid p bn bs f1 f2 = (Inr self, adata')"
    and wf: "wf_adata adata"
  shows "loader_batches (entire_dataset self)
           = chunks (nat (2 * bs)) (dataset_items (dataset (entire_dataset self)))"
    and "length (dataset_items (dataset (entire_dataset self))) = n_obs adata"
    and "map fst (dataset_items (dataset (entire_dataset self))) = data (dataset (entire_dataset self))"
    and "0 < bs"
proof -
  let ?ds = "dataset (entire_dataset self)"
  from ld wf obtain labs where wf': "wf_adata adata'"
    and ad: "adata' = adata\<lparr> obs := AList.update ''encoded_perturbations''
                                   (map Vec (encode_labels labs)) (obs adata) \<rparr>"
    and bs: "0 < bs"
    and bsz: "batch_size (entire_dataset self) = nat (2 * bs)"
    and dt: "PLDataset_init adata' ''encoded_perturbations'' tc lk = Inr ?ds"
    by (rule load_facts)
  have no: "n_obs adata' = n_obs adata" by (simp add: ad n_obs_def)
  note d = wf_adata_data [OF wf' dt, unfolded no]
  show "loader_batches (entire_dataset self) = chunks (nat (2 * bs)) (dataset_items ?ds)"
    by (simp add: loader_batches_def bsz)
  show "length (dataset_items ?ds) = n_obs adata"
    using d by (simp add: dataset_items_length)
  show "map fst (dataset_items ?ds) = data ?ds"
    using d by (simp add: dataset_items_fst)
  show "0 < bs" by (rule bs)
qed

text \<open>
  What the squeeze of line 177 does to the embedding tensor of a batch. On a loaded
  model, the embedding tensor of every batch of the full-data loader has one row per cell
  of the batch, each row as wide as the embedding. When the batch holds more than one
  cell and the embedding is more than one feature wide, squeezing leaves the tensor as it
  is. When the number of cells is congruent to 1 modulo twice the batch size, the last
  batch holds a single cell, the squeezed tensor has fewer than two dimensions, and
  building the annotated data object of that batch raises \<^verbatim>\<open>ValueError\<close>.
\<close>

lemma squeeze_on_batches:
  assumes ld: "load tts adata tc lk hid p bn bs f1 f2 = (Inr self, adata')"
    and wf: "wf_adata adata"
    and rs: "respects_shapes w 0 (network (net self))"
  shows "(\<forall>b\<in>set (loader_batches (entire_dataset self)).
            \<exists>emb y. classifier_get_embeddings w (net self) b = Inr (emb, y)
              \<and> length emb = length b
              \<and> (\<forall>row\<in>set emb. length row = embedding_width adata hid)
              \<and> (1 < length b \<and> embedding_width adata hid \<noteq> 1 \<longrightarrow> squeeze emb = T2 emb))
       \<and> (n_obs adata mod nat (2 * bs) = 1 \<longrightarrow>
            loader_batches (entire_dataset self) \<noteq> []
            \<and> length (last (loader_batches (entire_dataset self))) = 1
            \<and> (\<exists>emb y. classifier_get_embeddings w (net self) (last (loader_batches (entire_dataset self)))
                          = Inr (emb, y)
                  \<and> tensor_ndim (squeeze emb) < 2
                  \<and> AnnData_init (squeeze emb) = Inl (Raised ''ValueError'')))"
proof -
  let ?H = "embedding_width adata hid"
  let ?ds = "dataset (entire_dataset self)"
  let ?bs = "loader_batches (entire_dataset self)"
  note lb = loader_batches_after_load [OF ld wf]
  from lb(4) have b2: "2 \<le> nat (2 * bs)" by simp
  then have b0: "0 < nat (2 * bs)" by simp
  have cc: "concat ?bs = dataset_items ?ds" unfolding lb(1) using b0 by (rule concat_chunks)
  have each: "\<exists>emb y. classifier_get_embeddings w (net self) b = Inr (emb, y)
              \<and> length emb = length b
              \<and> (\<forall>row\<in>set emb. length row = ?H)
              \<and> (1 < length b \<and> ?H \<noteq> 1 \<longrightarrow> squeeze emb = T2 emb)
              \<and> (length b = 1 \<longrightarrow> tensor_ndim (squeeze emb) < 2
                     \<and> AnnData_init (squeeze emb) = Inl (Raised ''ValueError''))"
    if b: "b \<in> set ?bs" for b
  proof -
    let ?E = "map (emb_of w (net self)) (map fst b)"
    have ok: "\<forall>it\<in>set b. emb_ok w (net self) ?H (fst it)"
    proof
      fix it assume "it \<in> set b"
      with b have "it \<in> set (concat ?bs)" by auto
      then have "fst it \<in> set (map fst (dataset_items ?ds))" by (simp add: cc)
      then have "fst it \<in> set (data ?ds)" by (simp only: lb(3))
      with loaded_emb_ok [OF ld wf rs] show "emb_ok w (net self) ?H (fst it)" by blast
    qed
    have cg: "classifier_get_embeddings w (net self) b = Inr (?E, map str_of b)"
      using ok by (rule classifier_get_embeddings_ok)
    have lenE: "\<forall>row\<in>set ?E. length row = ?H" using ok by (auto dest: emb_ok_emb_of)
    have keep: "squeeze ?E = T2 ?E" if "1 < length b \<and> ?H \<noteq> 1"
    proof (rule squeeze_T2)
      from that show "2 \<le> length ?E" by simp
      from that have "hd ?E \<in> set ?E" by (cases b) auto
      with lenE have "length (hd ?E) = ?H" by blast
      with that show "length (hd ?E) \<noteq> 1" by simp
    qed
    have single: "tensor_ndim (squeeze ?E) < 2 \<and> AnnData_init (squeeze ?E) = Inl (Raised ''ValueError'')"
      if "length b = 1"
    proof
      from that have ne: "?E \<noteq> []" and l1: "length ?E = 1 \<or> length (hd ?E) = 1" by auto
      from ne l1 show "tensor_ndim (squeeze ?E) < 2" by (rule tensor_ndim_squeeze_single)
      from that have "length ?E = 1 \<or> ?H = 1" by simp
      with ne lenE show "AnnData_init (squeeze ?E) = Inl (Raised ''ValueError'')"
        by (intro batch_step_fail) auto
    qed
    show ?thesis using cg lenE keep single by (intro exI [of _ ?E] exI [of _ "map str_of b"]) simp
  qed
  have tail: "?bs \<noteq> [] \<and> length (last ?bs) = 1" if "n_obs adata mod nat (2 * bs) = 1"
    unfolding lb(1) using b2 by (rule chunks_last_single) (simp add: lb(2) that)
  show ?thesis
  proof (intro conjI ballI impI)
    fix b assume "b \<in> set ?bs"
    from each [OF this] show "\<exists>emb y. classifier_get_embeddings w (net self) b = Inr (emb, y)
              \<and> length emb = length b
              \<and> (\<forall>row\<in>set emb. length row = ?H)
              \<and> (1 < length b \<and> ?H \<noteq> 1 \<longrightarrow> squeeze emb = T2 emb)" by blast
  next
    assume m: "n_obs adata mod nat (2 * bs) = 1"
    from tail [OF m] show "?bs \<noteq> []" and l: "length (last ?bs) = 1" by simp_all
    from tail [OF m] have "last ?bs \<in> set ?bs" by simp
    from each [OF this] l show "\<exists>emb y. classifier_get_embeddings w (net self) (last ?bs) = Inr (emb, y)
                  \<and> tensor_ndim (squeeze emb) < 2
                  \<and> AnnData_init (squeeze emb) = Inl (Raised ''ValueError'')" by blast
  qed
qed

lemma demo_load_ok2:
  "\<not> isl (fst (load demo_split demo_adata ''gene_target'' None (Some [3]) 0 True 2 (1/5) (1/4)))"
  by code_simp

lemma squeeze_on_batches_demo:
  "\<exists>self adata'.
      load demo_split demo_adata ''gene_target'' None (Some [3]) 0 True 2 (1/5) (1/4) = (Inr self, adata')
    \<and> n_obs demo_adata mod nat (2 * 2) = 1
    \<and> 1 < length (hd (loader_batches (entire_dataset self)))
    \<and> (\<exists>emb y. classifier_get_embeddings demo_w (net self) (hd (loader_batches (entire_dataset self)))
                  = Inr (emb, y) \<and> squeeze emb = T2 emb)
    \<and> length (last (loader_batches (entire_dataset self))) = 1
    \<and> (\<exists>emb y. classifier_get_embeddings demo_w (net self) (last (loader_batches (entire_dataset self)))
                  = Inr (emb, y) \<and> tensor_ndim (squeeze emb) < 2)"
proof -
  obtain self adata' where
    ld: "load demo_split demo_adata ''gene_target'' None (Some [3]) 0 True 2 (1/5) (1/4) = (Inr self, adata')"
    using demo_load_ok2 by (metis sum.collapse(2) prod.collapse)
  from ld demo_wf obtain labs where l: "map_of (obs demo_adata) ''gene_target'' = Some (map Str labs)"
    and nw: "network (net self) = hidden_blocks 0 True False (n_vars demo_adata) (case Some [3] of None \<Rightarrow> [512] | Some h \<Rightarrow> h)
           @ [Linear (last (n_vars demo_adata # (case Some [3] of None \<Rightarrow> [512] | Some h \<Rightarrow> h))) (card (set labs))]"
    by (rule load_facts)
  have "map_of (obs demo_adata) ''gene_target'' = Some (map Str demo_labels)"
    by (simp add: demo_adata_def)
  with l have "labs = demo_labels" by (simp add: map_Str_inject)
  moreover have "card (set demo_labels) = 2" by code_simp
  ultimately have c: "card (set labs) = 2" by simp
  have rs: "respects_shapes demo_w 0 (network (net self))"
    unfolding nw c by (simp add: norm_layers_def layer_ok_def demo_w_def n_vars_def demo_adata_def)
  have m: "n_obs demo_adata mod nat (2 * 2) = 1" by (simp add: n_obs_def demo_adata_def)
  have H: "embedding_width demo_adata (Some [3]) \<noteq> 1"
    by (simp add: embedding_width_def hidden_of_def)
  have self: "self = projr (fst (load demo_split demo_adata ''gene_target'' None (Some [3]) 0 True 2 (1/5) (1/4)))"
    by (simp add: ld)
  have h4: "length (hd (loader_batches (entire_dataset self))) = 4"
    unfolding self by code_simp
  have ne: "loader_batches (entire_dataset self) \<noteq> []"
    using squeeze_on_batches [OF ld demo_wf rs] m by blast
  then have hd_in: "hd (loader_batches (entire_dataset self)) \<in> set (loader_batches (entire_dataset self))"
    by simp
  from squeeze_on_batches [OF ld demo_wf rs] hd_in h4 H m ld
  show ?thesis by (intro exI [of _ self] exI [of _ adata']) fastforce
qed

text \<open>
  C10, at a failing input. The nine cells loaded with \<^verbatim>\<open>hidden_dim=[1]\<close> and
  \<^verbatim>\<open>batch_size=3\<close>: the embedding is one feature wide. Training returns. The first batch
  of the full-data loader holds six cells, more than one, and its embedding tensor has
  six rows of one entry; squeezing it gives a one-dimensional tensor, not a
  cells-by-features matrix, so that building the annotated data object of the batch fails
  and \<^verbatim>\<open>get_embeddings\<close> raises \<^verbatim>\<open>ValueError\<close>.
\<close>

theorem squeeze_drops_single_feature:
  "\<not> isl (fst (load demo_split demo_adata ''gene_target'' None (Some [1]) 0 True 3 (1/5) (1/4)))
   \<and> length (hd (loader_batches (entire_dataset (projr (fst
        (load demo_split demo_adata ''gene_target'' None (Some [1]) 0 True 3 (1/5) (1/4))))))) = 6
   \<and> \<not> isl (classifier_get_embeddings demo_w1
        (net (projr (fst (load demo_split demo_adata ''gene_target'' None (Some [1]) 0 True 3 (1/5) (1/4)))))
        (hd (loader_batches (entire_dataset (projr (fst
           (load demo_split demo_adata ''gene_target'' None (Some [1]) 0 True 3 (1/5) (1/4))))))))
   \<and> tensor_ndim (squeeze (fst (projr (classifier_get_embeddings demo_w1
        (net (projr (fst (load demo_split demo_adata ''gene_target'' None (Some [1]) 0 True 3 (1/5) (1/4)))))
        (hd (loader_batches (entire_dataset (projr (fst
           (load demo_split demo_adata ''gene_target'' None (Some [1]) 0 True 3 (1/5) (1/4))))))))))) = 1
   \<and> AnnData_init (squeeze (fst (projr (classifier_get_embeddings demo_w1
        (net (projr (fst (load demo_split demo_adata ''gene_target'' None (Some [1]) 0 True 3 (1/5) (1/4)))))
        (hd (loader_batches (entire_dataset (projr (fst
           (load demo_split demo_adata ''gene_target'' None (Some [1]) 0 True 3 (1/5) (1/4)))))))))))
       = Inl (Raised ''ValueError'')
   \<and> fst (train (\<lambda>s. None) 40 (projr (fst
        (load demo_split demo_adata ''gene_target'' None (Some [1]) 0 True 3 (1/5) (1/4))))) = Inr ()
   \<and> fst (get_embeddings demo_w1 (snd (train (\<lambda>s. None) 40 (projr (fst
        (load demo_split demo_adata ''gene_target'' None (Some [1]) 0 True 3 (1/5) (1/4)))))))
       = Inl (Raised ''ValueError'')"
  by code_simp

text \<open>
  C3, at a failing input. Nine cells with \<^verbatim>\<open>batch_size=2\<close>: the full-data loader makes
  batches of four, four and one cells, and \<^verbatim>\<open>get_embeddings\<close> raises \<^verbatim>\<open>ValueError\<close>
  instead of returning nine rows. On this input the training loader makes a batch of one
  cell too, so that \<^verbatim>\<open>train\<close> raises after it has assigned the model. Seven cells with
  \<^verbatim>\<open>batch_size=3\<close>: the training, validation and test loaders make batches of three, of
  two and of two cells and training returns; the full-data loader makes batches of six
  cells and of one cell, and \<^verbatim>\<open>get_embeddings\<close> raises \<^verbatim>\<open>ValueError\<close> instead of
  returning seven rows.
\<close>

theorem get_embeddings_single_cell_batch:
  "\<not> isl (fst (load demo_split demo_adata ''gene_target'' None (Some [3]) 0 True 2 (1/5) (1/4)))
   \<and> n_obs demo_adata = 9
   \<and> map length (loader_batches (entire_dataset (projr (fst
        (load demo_split demo_adata ''gene_target'' None (Some [3]) 0 True 2 (1/5) (1/4)))))) = [4, 4, 1]
   \<and> fst (get_embeddings demo_w (snd (train (\<lambda>s. None) 40 (projr (fst
        (load demo_split demo_adata ''gene_target'' None (Some [3]) 0 True 2 (1/5) (1/4)))))))
       = Inl (Raised ''ValueError'')
   \<and> map length (loader_batches (train_dataloader (projr (fst
        (load demo_split demo_adata ''gene_target'' None (Some [3]) 0 True 2 (1/5) (1/4)))))) = [2, 2, 1]
   \<and> isl (fst (train (\<lambda>s. None) 40 (projr (fst
        (load demo_split demo_adata ''gene_target'' None (Some [3]) 0 True 2 (1/5) (1/4))))))
   \<and> \<not> isl (fst (load demo_split demo_adata7 ''gene_target'' None (Some [3]) 0 True 3 (1/5) (1/4)))
   \<and> n_obs demo_adata7 = 7
   \<and> map length (loader_batches (train_dataloader (projr (fst
        (load demo_split demo_adata7 ''gene_target'' None (Some [3]) 0 True 3 (1/5) (1/4)))))) = [3]
   \<and> map length (loader_batches (valid_dataloader (projr (fst
        (load demo_split demo_adata7 ''gene_target'' None (Some [3]) 0 True 3 (1/5) (1/4)))))) = [2]
   \<and> map length (loader_batches (test_dataloader (projr (fst
        (load demo_split demo_adata7 ''gene_target'' None (Some [3]) 0 True 3 (1/5) (1/4)))))) = [2]
   \<and> fst (train (\<lambda>s. None) 40 (projr (fst
        (load demo_split demo_adata7 ''gene_target'' None (Some [3]) 0 True 3 (1/5) (1/4))))) = Inr ()
   \<and> map length (loader_batches (entire_dataset (projr (fst
        (load demo_split demo_adata7 ''gene_target'' None (Some [3]) 0 True 3 (1/5) (1/4)))))) = [6, 1]
   \<and> fst (get_embeddings demo_w (snd (train (\<lambda>s. None) 40 (projr (fst
        (load demo_split demo_adata7 ''gene_target'' None (Some [3]) 0 True 3 (1/5) (1/4)))))))
       = Inl (Raised ''ValueError'')"
  by code_simp

text \<open>
  C2, at a failing input. The training part of the data set holds three \<^verbatim>\<open>ctrl\<close> cells
  and two \<^verbatim>\<open>KO\<close> cells; all five sampling weights are one half.
\<close>

theorem train_weights_not_balanced:
  "\<not> isl (fst (load demo_split demo_adata ''gene_target'' None (Some [3]) 0 True 3 (1/5) (1/4)))
   \<and> pert_labels (dataset (train_dataloader (projr (fst
        (load demo_split demo_adata ''gene_target'' None (Some [3]) 0 True 3 (1/5) (1/4))))))
       = [Str ''ctrl'', Str ''ctrl'', Str ''ctrl'', Str ''KO'', Str ''KO'']
   \<and> sampler (train_dataloader (projr (fst
        (load demo_split demo_adata ''gene_target'' None (Some [3]) 0 True 3 (1/5) (1/4)))))
       = Some [1/2, 1/2, 1/2, 1/2, 1/2]"
  by code_simp

subsection \<open>The column added by load\<close>

lemma one_hot_Cons: "one_hot (c # cats) l = (if c = l then 1 else 0) # one_hot cats l"
  by (simp add: one_hot_def)

lemma sum_list_one_hot_absent: "l \<notin> set cats \<Longrightarrow> sum_list (one_hot cats l) = 0"
  by (induction cats) (auto simp: one_hot_Cons one_hot_def)

lemma sum_list_one_hot:
  "distinct cats \<Longrightarrow> l \<in> set cats \<Longrightarrow> sum_list (one_hot cats l) = 1"
  by (induction cats) (auto simp: one_hot_Cons sum_list_one_hot_absent)

lemma encode_labels_nth:
  assumes "i < length labs"
  shows "encode_labels labs ! i = one_hot (sort (remdups labs)) (labs ! i)"
    and "length (encode_labels labs ! i) = card (set labs)"
    and "sum_list (encode_labels labs ! i) = 1"
    and "\<forall>j<card (set labs). encode_labels labs ! i ! j
           = (if sort (remdups labs) ! j = labs ! i then 1 else 0)"
proof -
  let ?cats = "sort (remdups labs)"
  show e: "encode_labels labs ! i = one_hot ?cats (labs ! i)"
    using assms by (simp add: encode_labels_def)
  have len: "length ?cats = card (set labs)" by (simp add: length_remdups_card_conv)
  then show "length (encode_labels labs ! i) = card (set labs)" by (simp add: e one_hot_def)
  have "distinct ?cats" and "labs ! i \<in> set ?cats" using assms by simp_all
  then show "sum_list (encode_labels labs ! i) = 1" unfolding e by (rule sum_list_one_hot)
  show "\<forall>j<card (set labs). encode_labels labs ! i ! j = (if ?cats ! j = labs ! i then 1 else 0)"
    using len by (simp add: e one_hot_def)
qed

lemma update_absent: "k \<notin> set (columns t) \<Longrightarrow> AList.update k v t = t @ [(k, v)]"
  by (induction t) (auto simp: columns_def)

text \<open>
  C8. After a successful \<^verbatim>\<open>load\<close> the caller's object differs from what it was in its
  observation table only, and there in the column \<^verbatim>\<open>encoded_perturbations\<close> only: that
  column holds, for every cell, the one-hot row of the cell's label in the target column
  (as wide as there are distinct labels, with a one at the position of the label among
  the sorted distinct labels and zeros elsewhere); the matrix, the variables, the layers
  and all other observation columns, in their order, are unchanged; if the column did
  not exist it is appended.
\<close>

theorem load_adds_encoded_column:
  assumes ld: "load tts adata tc lk hid p bn bs f1 f2 = (Inr self, adata')"
  shows "\<exists>labs. map_of (obs adata) tc = Some (map Str labs)
       \<and> map_of (obs adata') ''encoded_perturbations'' = Some (map Vec (encode_labels labs))
       \<and> length (encode_labels labs) = length labs
       \<and> (\<forall>i<length labs.
              length (encode_labels labs ! i) = card (set labs)
            \<and> sum_list (encode_labels labs ! i) = 1
            \<and> (\<forall>j<card (set labs). encode_labels labs ! i ! j
                   = (if sort (remdups labs) ! j = labs ! i then 1 else 0)))
       \<and> X adata' = X adata \<and> var adata' = var adata \<and> layers adata' = layers adata
       \<and> (\<forall>c. c \<noteq> ''encoded_perturbations'' \<longrightarrow> map_of (obs adata') c = map_of (obs adata) c)
       \<and> AList.delete ''encoded_perturbations'' (obs adata')
           = AList.delete ''encoded_perturbations'' (obs adata)
       \<and> (''encoded_perturbations'' \<notin> set (columns (obs adata))
            \<longrightarrow> obs adata' = obs adata @ [(''encoded_perturbations'', map Vec (encode_labels labs))])
       \<and> adata' = adata\<lparr> obs := obs adata' \<rparr>"
proof -
  from ld obtain labs where col: "map_of (obs adata) tc = Some (map Str labs)"
    and ad: "adata' = adata\<lparr> obs := AList.update ''encoded_perturbations''
                                   (map Vec (encode_labels labs)) (obs adata) \<rparr>"
    by (rule load_InrD)
  have enc: "\<forall>i<length labs.
              length (encode_labels labs ! i) = card (set labs)
            \<and> sum_list (encode_labels labs ! i) = 1
            \<and> (\<forall>j<card (set labs). encode_labels labs ! i ! j
                   = (if sort (remdups labs) ! j = labs ! i then 1 else 0))"
    using encode_labels_nth by blast
  have len: "length (encode_labels labs) = length labs" by (simp add: encode_labels_def)
  show ?thesis
    using col enc len
    by (intro exI [of _ labs]) (simp add: ad update_conv' delete_update_same update_absent)
qed

theorem load_adds_encoded_column_witness:
  "\<exists>self adata'.
      load demo_split demo_adata ''gene_target'' None (Some [3]) 0 True 3 (1/5) (1/4) = (Inr self, adata')
    \<and> obs adata' = obs demo_adata @ [(''encoded_perturbations'',
          [Vec [0, 1], Vec [0, 1], Vec [0, 1], Vec [1, 0], Vec [1, 0],
           Vec [0, 1], Vec [1, 0], Vec [0, 1], Vec [1, 0]])]
    \<and> X adata' = X demo_adata \<and> var adata' = var demo_adata \<and> layers adata' = layers demo_adata"
proof -
  obtain self adata' where
    ld: "load demo_split demo_adata ''gene_target'' None (Some [3]) 0 True 3 (1/5) (1/4) = (Inr self, adata')"
    by (rule demo_setting)
  from load_adds_encoded_column [OF ld] obtain labs where
    l: "map_of (obs demo_adata) ''gene_target'' = Some (map Str labs)"
    and o: "''encoded_perturbations'' \<notin> set (columns (obs demo_adata))
            \<longrightarrow> obs adata' = obs demo_adata @ [(''encoded_perturbations'', map Vec (encode_labels labs))]"
    and r: "X adata' = X demo_adata" "var adata' = var demo_adata" "layers adata' = layers demo_adata"
    by blast
  have "map_of (obs demo_adata) ''gene_target'' = Some (map Str demo_labels)"
    by (simp add: demo_adata_def)
  with l have labs: "labs = demo_labels" by (simp add: map_Str_inject)
  have e: "map Vec (encode_labels demo_labels)
             = [Vec [0, 1], Vec [0, 1], Vec [0, 1], Vec [1, 0], Vec [1, 0],
                Vec [0, 1], Vec [1, 0], Vec [0, 1], Vec [1, 0]]"
    by code_simp
  have n: "''encoded_perturbations'' \<notin> set (columns (obs demo_adata))"
    by (simp add: demo_adata_def columns_def)
  from o n have "obs adata' = obs demo_adata @ [(''encoded_perturbations'', map Vec (encode_labels labs))]"
    by simp
  with ld r show ?thesis unfolding labs e by blast
qed

subsection \<open>The split into train, validation and test cells\<close>

lemma demo_split_contract: "split_contract demo_split"
proof -
  have "mset (take k idx) + mset (drop k idx) = mset idx" for k and idx :: "nat list"
    by (metis append_take_drop_id mset_append)
  then show ?thesis
    by (auto simp: split_contract_def demo_split_def Let_def split: if_splits)
qed

lemma split_indices_InrD:
  assumes "split_indices tts a tc f1 f2 = Inr (Xtr, Xval, Xte)"
  obtains y Xtr0 ytr0 yte ytr yval
  where "tts [0..<n_obs a] y f1 = Inr (Xtr0, Xte, ytr0, yte)"
    and "tts Xtr0 ytr0 f2 = Inr (Xtr, Xval, ytr, yval)"
  using assms
  by (auto simp: split_indices_def on_ok_Inr_iff raised_Inr_iff)

lemma split_indices_partition:
  assumes sp: "split_indices tts a tc f1 f2 = Inr (Xtr, Xval, Xte)"
    and c: "split_contract tts"
  shows "mset Xtr + mset Xval + mset Xte = mset [0..<n_obs a]"
    and "length Xte = nat \<lceil>f1 * of_nat (n_obs a)\<rceil>"
    and "length Xval = nat \<lceil>f2 * of_nat (n_obs a - length Xte)\<rceil>"
    and "length Xtr = n_obs a - length Xte - length Xval"
proof -
  from sp obtain y Xtr0 ytr0 yte ytr yval
    where s1: "tts [0..<n_obs a] y f1 = Inr (Xtr0, Xte, ytr0, yte)"
      and s2: "tts Xtr0 ytr0 f2 = Inr (Xtr, Xval, ytr, yval)"
    by (rule split_indices_InrD)
  from c s1 have m1: "mset Xtr0 + mset Xte = mset [0..<n_obs a]"
    and l1: "length Xte = nat \<lceil>f1 * of_nat (length [0..<n_obs a])\<rceil>"
    unfolding split_contract_def by blast+
  from c s2 have m2: "mset Xtr + mset Xval = mset Xtr0"
    and l2: "length Xval = nat \<lceil>f2 * of_nat (length Xtr0)\<rceil>"
    unfolding split_contract_def by blast+
  from m1 m2 show m: "mset Xtr + mset Xval + mset Xte = mset [0..<n_obs a]" by simp
  from l1 show "length Xte = nat \<lceil>f1 * of_nat (n_obs a)\<rceil>" by simp
  from m1 have "size (mset Xtr0 + mset Xte) = size (mset [0..<n_obs a])" by simp
  then have n0: "length Xtr0 = n_obs a - length Xte" by simp
  with l2 show "length Xval = nat \<lceil>f2 * of_nat (n_obs a - length Xte)\<rceil>" by simp
  from m2 have "size (mset Xtr + mset Xval) = size (mset Xtr0)" by simp
  with n0 show "length Xtr = n_obs a - length Xte - length Xval" by simp
qed

lemma PLDataset_of_rows_length:
  assumes "adata_rows ad idx = Inr a" and "PLDataset_init a t l k = Inr d"
  shows "length (data d) = length idx"
proof -
  from assms(1) have a: "X a = map (\<lambda>i. X ad ! i) idx"
    "layers a = map (\<lambda>(k, m). (k, map (\<lambda>i. m ! i) idx)) (layers ad)"
    by (auto simp: adata_rows_def split: if_splits)
  from PLDataset_init_InrD(3) [OF assms(2)] show ?thesis
    by (auto simp: a)
qed

text \<open>
  C6. Provided \<^verbatim>\<open>train_test_split\<close> does what its documentation says (its two parts
  together are a rearrangement of its input, and the second part holds the fraction it
  was asked for, rounded up to whole cells), a successful \<^verbatim>\<open>load\<close> has built its three
  datasets from three index lists that are pairwise disjoint, free of repetitions and
  together cover all cells; the test part holds \<open>\<lceil>test_split_size \<sdot> n\<rceil>\<close> cells and the
  validation part \<open>\<lceil>validation_split_size \<sdot> (n - n_test)\<rceil>\<close> cells, the fraction of what
  remained after the test part was taken out.
\<close>

theorem load_splits_partition_cells:
  assumes ld: "load tts adata tc lk hid p bn bs f1 f2 = (Inr self, adata')"
    and c: "split_contract tts"
  shows "\<exists>Xtr Xval Xte atr aval ate.
           split_indices tts adata' tc f1 f2 = Inr (Xtr, Xval, Xte)
         \<and> adata_rows adata' Xtr = Inr atr
         \<and> PLDataset_init atr ''encoded_perturbations'' tc lk = Inr (dataset (train_dataloader self))
         \<and> adata_rows adata' Xval = Inr aval
         \<and> PLDataset_init aval ''encoded_perturbations'' tc lk = Inr (dataset (valid_dataloader self))
         \<and> adata_rows adata' Xte = Inr ate
         \<and> PLDataset_init ate ''encoded_perturbations'' tc lk = Inr (dataset (test_dataloader self))
         \<and> set Xtr \<inter> set Xval = {} \<and> set Xtr \<inter> set Xte = {} \<and> set Xval \<inter> set Xte = {}
         \<and> distinct Xtr \<and> distinct Xval \<and> distinct Xte
         \<and> set Xtr \<union> set Xval \<union> set Xte = {0..<n_obs adata}
         \<and> length Xte = nat \<lceil>f1 * of_nat (n_obs adata)\<rceil>
         \<and> length Xval = nat \<lceil>f2 * of_nat (n_obs adata - length Xte)\<rceil>
         \<and> length Xtr = n_obs adata - length Xte - length Xval
         \<and> length (data (dataset (train_dataloader self))) = length Xtr
         \<and> length (data (dataset (valid_dataloader self))) = length Xval
         \<and> length (data (dataset (test_dataloader self))) = length Xte"
proof -
  from ld obtain labs where
    ad: "adata' = adata\<lparr> obs := AList.update ''encoded_perturbations''
                                   (map Vec (encode_labels labs)) (obs adata) \<rparr>"
    and rest: "load_rest tts adata' tc lk (case hid of None \<Rightarrow> [512] | Some h \<Rightarrow> h)
           (length (remdups labs)) p bn bs f1 f2 = Inr self"
    by (rule load_InrD)
  have no: "n_obs adata' = n_obs adata" by (simp add: ad n_obs_def)
  from rest obtain Xtr Xval Xte atr aval ate dtr dval dte where
    sp: "split_indices tts adata' tc f1 f2 = Inr (Xtr, Xval, Xte)"
    and r: "adata_rows adata' Xtr = Inr atr" "adata_rows adata' Xval = Inr aval"
      "adata_rows adata' Xte = Inr ate"
    and d: "PLDataset_init atr ''encoded_perturbations'' tc lk = Inr dtr"
      "PLDataset_init aval ''encoded_perturbations'' tc lk = Inr dval"
      "PLDataset_init ate ''encoded_perturbations'' tc lk = Inr dte"
    and s: "dataset (train_dataloader self) = dtr" "dataset (valid_dataloader self) = dval"
      "dataset (test_dataloader self) = dte"
    by (rule load_rest_InrD) simp
  note p = split_indices_partition [OF sp c, unfolded no]
  have "mset (Xtr @ Xval @ Xte) = mset Xtr + mset Xval + mset Xte" by simp
  also note p(1)
  finally have m: "mset (Xtr @ Xval @ Xte) = mset [0..<n_obs adata]" .
  then have "distinct (Xtr @ Xval @ Xte)"
    by (metis distinct_upt mset_eq_imp_distinct_iff)
  then have dis: "set Xtr \<inter> set Xval = {}" "set Xtr \<inter> set Xte = {}" "set Xval \<inter> set Xte = {}"
    "distinct Xtr" "distinct Xval" "distinct Xte"
    by auto
  from m have "set (Xtr @ Xval @ Xte) = set [0..<n_obs adata]" by (rule mset_eq_setD)
  then have un: "set Xtr \<union> set Xval \<union> set Xte = {0..<n_obs adata}" by auto
  have len: "length (data (dataset (train_dataloader self))) = length Xtr"
    "length (data (dataset (valid_dataloader self))) = length Xval"
    "length (data (dataset (test_dataloader self))) = length Xte"
    unfolding s
    by (rule PLDataset_of_rows_length [OF r(1) d(1)], rule PLDataset_of_rows_length [OF r(2) d(2)],
        rule PLDataset_of_rows_length [OF r(3) d(3)])
  note d' = d [folded s]
  show ?thesis
    apply (rule exI [of _ Xtr], rule exI [of _ Xval], rule exI [of _ Xte])
    apply (rule exI [of _ atr], rule exI [of _ aval], rule exI [of _ ate])
    apply (intro conjI)
    apply (fact sp r d' dis un p(2,3,4) len)+
    done
qed

theorem load_splits_partition_cells_witness:
  "\<exists>self adata'.
      load demo_split demo_adata ''gene_target'' None (Some [3]) 0 True 3 (1/5) (1/4) = (Inr self, adata')
    \<and> split_contract demo_split
    \<and> n_obs demo_adata = 9
    \<and> length (data (dataset (test_dataloader self))) = 2
    \<and> length (data (dataset (valid_dataloader self))) = 2
    \<and> length (data (dataset (train_dataloader self))) = 5"
proof -
  obtain self adata' where
    ld: "load demo_split demo_adata ''gene_target'' None (Some [3]) 0 True 3 (1/5) (1/4) = (Inr self, adata')"
    by (rule demo_setting)
  have n: "n_obs demo_adata = 9" by (simp add: n_obs_def demo_adata_def)
  have c1: "nat \<lceil>(1/5 :: rat) * of_nat 9\<rceil> = 2" by code_simp
  have c2: "nat \<lceil>(1/4 :: rat) * of_nat (9 - 2)\<rceil> = 2" by code_simp
  have sizes: "length (data (dataset (test_dataloader self))) = 2
      \<and> length (data (dataset (valid_dataloader self))) = 2
      \<and> length (data (dataset (train_dataloader self))) = 5"
    using load_splits_partition_cells [OF ld demo_split_contract]
  proof (elim exE conjE)
    fix Xtr Xval Xte :: "nat list"
    assume te: "length Xte = nat \<lceil>(1/5 :: rat) * of_nat (n_obs demo_adata)\<rceil>"
      and va: "length Xval = nat \<lceil>(1/4 :: rat) * of_nat (n_obs demo_adata - length Xte)\<rceil>"
      and tr: "length Xtr = n_obs demo_adata - length Xte - length Xval"
      and d: "length (data (dataset (train_dataloader self))) = length Xtr"
        "length (data (dataset (valid_dataloader self))) = length Xval"
        "length (data (dataset (test_dataloader self))) = length Xte"
    from te have te2: "length Xte = 2" by (simp only: n c1)
    from va have va2: "length Xval = 2" by (simp only: n te2 c2)
    from tr have "length Xtr = 9 - 2 - 2" by (simp only: n te2 va2)
    then have "length Xtr = 5" by simp
    with te2 va2 d show ?thesis by simp
  qed
  from ld demo_split_contract n sizes show ?thesis by blast
qed

subsection \<open>The sampling weights of the training loader\<close>

lemma as_rows_Vec: "as_rows (map (\<lambda>i. Vec (f i)) idx) = Inr (map f idx)"
  by (induction idx) (simp_all add: on_ok_def)

text \<open>
  For every input, not only the one evaluated for C2: all sampling weights of the
  training loader are one half.
\<close>

lemma train_weights_uniform:
  assumes ld: "load tts adata tc lk hid p bn bs f1 f2 = (Inr self, adata')"
    and wf: "wf_adata adata"
  shows "\<exists>ws. sampler (train_dataloader self) = Some ws \<and> (\<forall>v\<in>set ws. v = 1 / 2)"
proof -
  from ld obtain labs where col: "map_of (obs adata) tc = Some (map Str labs)"
    and ad: "adata' = adata\<lparr> obs := AList.update ''encoded_perturbations''
                                   (map Vec (encode_labels labs)) (obs adata) \<rparr>"
    and rest: "load_rest tts adata' tc lk (case hid of None \<Rightarrow> [512] | Some h \<Rightarrow> h)
           (length (remdups labs)) p bn bs f1 f2 = Inr self"
    by (rule load_InrD)
  from wf col have len: "length labs = n_obs adata" by (auto dest: wf_adata_column)
  have no: "n_obs adata' = n_obs adata" by (simp add: ad n_obs_def)
  from rest obtain Xtr atr dtr wts where
    atr: "adata_rows adata' Xtr = Inr atr"
    and dtr: "PLDataset_init atr ''encoded_perturbations'' tc lk = Inr dtr"
    and wts: "train_weights_of (labels dtr) = Inr wts"
    and s: "sampler (train_dataloader self) = Some wts"
    by (rule load_rest_InrD) simp
  have ep: "map_of (obs adata') ''encoded_perturbations'' = Some (map Vec (encode_labels labs))"
    by (simp add: ad update_conv')
  from PLDataset_init_InrD(1) [OF dtr] adata_rows_obs(1) [OF atr, of "''encoded_perturbations''"] ep
  have "labels dtr = map (\<lambda>i. map Vec (encode_labels labs) ! i) Xtr" by simp
  moreover have "\<forall>i\<in>set Xtr. i < length labs"
    using adata_rows_obs(2) [OF atr] by (simp add: no len)
  ultimately have lab: "labels dtr = map (\<lambda>i. Vec (encode_labels labs ! i)) Xtr"
    by (simp add: encode_labels_def)
  from wts have "wts = map (\<lambda>i. 1 / (1 + sum_list (encode_labels labs ! i))) Xtr"
    by (auto simp: train_weights_of_def lab as_rows_Vec on_ok_def comp_def split: if_splits)
  moreover have "sum_list (encode_labels labs ! i) = 1" if "i \<in> set Xtr" for i
    using that \<open>\<forall>i\<in>set Xtr. i < length labs\<close> by (intro encode_labels_nth(3)) auto
  ultimately have "\<forall>v\<in>set wts. v = 1 / 2" by auto
  with s show ?thesis by blast
qed

end
